theory Spec2Isabelle
  imports Main "HOL-Library.Word"
begin

section \<open>JavaScript values\<close>

text \<open>
  The values that flow through the wrappers of \<^verbatim>\<open>asyncify.mjs\<close>. Numbers are the
  integers and \<open>NaN\<close> (the code only tests numbers for truthiness and stores them in an
  \<^verbatim>\<open>Int32Array\<close>). An object or a function is its properties, own and inherited, as
  an association list. The identity of function objects, by which the wrapper cache is
  keyed, is the matter of a later section.
\<close>

datatype jsval =
    JUndefined
  | JNull
  | JBool bool
  | JNum int
  | JNaN
  | JStr string
  | JBigInt int
  | JSymbol nat
  | JObject "(string \<times> jsval) list"
  | JFunction "(string \<times> jsval) list"

datatype jstype =
  T_undefined | T_object | T_boolean | T_number | T_string | T_bigint | T_symbol | T_function

text \<open>The \<^verbatim>\<open>typeof\<close> operator; \<^verbatim>\<open>typeof null\<close> is \<^verbatim>\<open>'object'\<close>.\<close>

fun typeof :: "jsval \<Rightarrow> jstype" where
  "typeof JUndefined = T_undefined"
| "typeof JNull = T_object"
| "typeof (JBool b) = T_boolean"
| "typeof (JNum n) = T_number"
| "typeof JNaN = T_number"
| "typeof (JStr s) = T_string"
| "typeof (JBigInt n) = T_bigint"
| "typeof (JSymbol k) = T_symbol"
| "typeof (JObject ps) = T_object"
| "typeof (JFunction ps) = T_function"

text \<open>\<^verbatim>\<open>!!v\<close>: the falsy values are undefined, null, false, 0, NaN, the empty string and 0n.\<close>

fun truthy :: "jsval \<Rightarrow> bool" where
  "truthy JUndefined = False"
| "truthy JNull = False"
| "truthy (JBool b) = b"
| "truthy (JNum n) = (n \<noteq> 0)"
| "truthy JNaN = False"
| "truthy (JStr s) = (s \<noteq> [])"
| "truthy (JBigInt n) = (n \<noteq> 0)"
| "truthy (JSymbol k) = True"
| "truthy (JObject ps) = True"
| "truthy (JFunction ps) = True"

text \<open>
  \<^verbatim>\<open>obj[name]\<close>. A missing property reads as undefined. Primitives have no property of
  their own; \<open>isPromise\<close> reads a property of objects and functions only.
\<close>

fun getProp :: "jsval \<Rightarrow> string \<Rightarrow> jsval" where
  "getProp (JObject ps) name = (case map_of ps name of None \<Rightarrow> JUndefined | Some v \<Rightarrow> v)"
| "getProp (JFunction ps) name = (case map_of ps name of None \<Rightarrow> JUndefined | Some v \<Rightarrow> v)"
| "getProp v name = JUndefined"

text \<open>
  \<^verbatim>\<open>
  function isPromise(obj) {
    return (
      !!obj &&
      (typeof obj === 'object' || typeof obj === 'function') &&
      typeof obj.then === 'function'
    );
  }
  \<close>
\<close>

definition isPromise :: "jsval \<Rightarrow> bool" where
  "isPromise obj \<longleftrightarrow>
     truthy obj \<and>
     (typeof obj = T_object \<or> typeof obj = T_function) \<and>
     typeof (getProp obj ''then'') = T_function"

text \<open>
  The specification's wording of an asynchronous value: a non-null object or function
  whose \<^verbatim>\<open>then\<close> property is itself a function.
\<close>

definition is_callable :: "jsval \<Rightarrow> bool" where
  "is_callable v \<longleftrightarrow> (case v of JFunction ps \<Rightarrow> True | _ \<Rightarrow> False)"

definition thenable :: "jsval \<Rightarrow> bool" where
  "thenable v \<longleftrightarrow>
     (case v of
        JObject ps \<Rightarrow> (case map_of ps ''then'' of Some t \<Rightarrow> is_callable t | None \<Rightarrow> False)
      | JFunction ps \<Rightarrow> (case map_of ps ''then'' of Some t \<Rightarrow> is_callable t | None \<Rightarrow> False)
      | _ \<Rightarrow> False)"

section \<open>The instance and its controller\<close>

text \<open>
  \<^verbatim>\<open>const State = { None: 0, Unwinding: 1, Rewinding: 2 };\<close>
\<close>

datatype State = State_None | State_Unwinding | State_Rewinding

text \<open>
  What a call can throw: the error of \<^verbatim>\<open>assertNoneState\<close> (the specification's
  ProtocolStateError), a value thrown by a host function, by the module or carried by a
  rejected promise, and the TypeError and RangeError of instantiation.
\<close>

datatype error =
    InvalidAsyncState State
  | Thrown jsval
  | TypeError
  | RangeError

text \<open>
  Function objects by identity: the functions that exist before any wrapping (the
  module's raw exports, the host's imports) and the closures that the wrap operations
  create. What a module exports or imports is a function, an i32 global with its current
  value, a memory or a table.
\<close>

datatype fnref = Raw nat | Closure nat

datatype extern = Func fnref | Global "32 word" | Memory | Table

text \<open>The control operations that the engine has received, in the order of the calls.\<close>

datatype engine_call =
    StartUnwind int
  | StopUnwind
  | StartRewind int
  | StopRewind

text \<open>
  \<^verbatim>\<open>
  const DATA_ADDR = 16;
  const DATA_START = DATA_ADDR + 8;
  const DATA_END = 1024;
  \<close>
\<close>

definition DATA_ADDR :: int where
  "DATA_ADDR = 16"

definition DATA_START :: int where
  "DATA_START = DATA_ADDR + 8"

definition DATA_END :: int where
  "DATA_END = 1024"

text \<open>
  The state that a call threads through. The fields of the \<^verbatim>\<open>Asyncify\<close> object:
  \<open>value\<close>, \<open>update_stack_area\<close>, \<open>data_addr\<close>. The module instance they drive: the
  engine's execution state, the memory in 32-bit words at byte offsets that are multiples
  of four with its length in bytes, the raw export object with the current values of the
  globals, the control operations received so far, and whatever the engine keeps of a
  suspended call between an unwind and the rewind (\<open>save_area\<close>, opaque to the wrappers).
  Last the state of the host, \<open>host\<close>.

  The only closure that the source ever stores in \<open>update_stack_area\<close> is the one of
  \<open>init\<close>, which captured the view \<^verbatim>\<open>data_start_end\<close>: the field holds the byte offset
  of that view, or nothing (\<^verbatim>\<open>undefined\<close>). The memory is not grown while the view is
  in use. The instance is an initialised one whose module exports the state query and the
  four control operations; \<^verbatim>\<open>this.exports\<close> passes them through unwrapped.
\<close>

record ('s, 'h) world =
  "value" :: jsval
  update_stack_area :: "int option"
  data_addr :: int
  asyncify_state :: State
  memory :: "int \<Rightarrow> 32 word"
  memory_size :: int
  instance_exports :: "(string \<times> extern) list"
  engine_calls :: "engine_call list"
  save_area :: 's
  host :: 'h

text \<open>
  The engine's state query and control operations, as the instrumented module exports
  them: each transition sets the execution state, and the two start operations take the
  address of the save-area descriptor.
\<close>

definition asyncify_get_state :: "('s, 'h) world \<Rightarrow> State" where
  "asyncify_get_state w = asyncify_state w"

definition asyncify_start_unwind :: "int \<Rightarrow> ('s, 'h) world \<Rightarrow> ('s, 'h) world" where
  "asyncify_start_unwind addr w =
     w\<lparr>asyncify_state := State_Unwinding, engine_calls := engine_calls w @ [StartUnwind addr]\<rparr>"

definition asyncify_stop_unwind :: "('s, 'h) world \<Rightarrow> ('s, 'h) world" where
  "asyncify_stop_unwind w =
     w\<lparr>asyncify_state := State_None, engine_calls := engine_calls w @ [StopUnwind]\<rparr>"

definition asyncify_start_rewind :: "int \<Rightarrow> ('s, 'h) world \<Rightarrow> ('s, 'h) world" where
  "asyncify_start_rewind addr w =
     w\<lparr>asyncify_state := State_Rewinding, engine_calls := engine_calls w @ [StartRewind addr]\<rparr>"

definition asyncify_stop_rewind :: "('s, 'h) world \<Rightarrow> ('s, 'h) world" where
  "asyncify_stop_rewind w =
     w\<lparr>asyncify_state := State_None, engine_calls := engine_calls w @ [StopRewind]\<rparr>"

text \<open>
  \<^verbatim>\<open>
  getState() { return this.exports.asyncify_get_state(); }

  assertNoneState() {
    let state = this.getState();
    if (state !== State.None) {
      throw new Error(`Invalid async state ${state}, expected 0.`);
    }
  }
  \<close>
\<close>

definition getState :: "('s, 'h) world \<Rightarrow> State" where
  "getState w = asyncify_get_state w"

definition assertNoneState :: "('s, 'h) world \<Rightarrow> error + unit" where
  "assertNoneState w =
     (let state = getState w in
      if state \<noteq> State_None then Inl (InvalidAsyncState state) else Inr ())"

text \<open>
  A JavaScript function seen from the wrappers: called with its arguments, it changes the
  world and returns a value or throws.
\<close>

type_synonym ('s, 'h) jsfun =
  "jsval list \<Rightarrow> ('s, 'h) world \<Rightarrow> (error + jsval) \<times> ('s, 'h) world"

text \<open>
  Storing a property of the export object into an \<^verbatim>\<open>Int32Array\<close>. A global gives its
  current value, through \<^verbatim>\<open>.value\<close> or, where the object itself is stored, through its
  \<^verbatim>\<open>valueOf\<close>. Any other export object, and a missing property, convert to \<open>NaN\<close> and
  are stored as 0.
\<close>

fun to_int32 :: "extern option \<Rightarrow> 32 word" where
  "to_int32 (Some (Global g)) = g"
| "to_int32 other = 0"

text \<open>
  The closure stored by \<open>init\<close>:
  \<^verbatim>\<open>()=>{ data_start_end[1] = exports.__stack_pointer; }\<close>.
  Element 1 of the view lies four bytes after the view's offset.
\<close>

definition run_update_stack_area :: "int \<Rightarrow> ('s, 'h) world \<Rightarrow> ('s, 'h) world" where
  "run_update_stack_area view w =
     w\<lparr>memory := (memory w)
         (view + 4 := to_int32 (map_of (instance_exports w) ''__stack_pointer''))\<rparr>"

section \<open>The import wrapper\<close>

text \<open>
  \<^verbatim>\<open>
  wrapImportFn(fn) {
    return (...args) => {
      if (this.getState() === State.Rewinding) {
        this.exports.asyncify_stop_rewind();
        return this.value;
      }
      this.assertNoneState();
      let value = fn(...args);
      if (!isPromise(value)) {
        return value;
      }
      this.update_stack_area?.();
      this.exports.asyncify_start_unwind(this.data_addr);
      this.value = value;
    };
  }
  \<close>
  \<open>wrappedImport fn\<close> is the body of the closure that \<^verbatim>\<open>wrapImportFn(fn)\<close> returns;
  which function object carries it is the matter of the section on wrapper identity.
\<close>

definition wrappedImport :: "('s, 'h) jsfun \<Rightarrow> ('s, 'h) jsfun" where
  "wrappedImport fn args w =
     (if getState w = State_Rewinding then
        (let w1 = asyncify_stop_rewind w in (Inr (value w1), w1))
      else
        (case assertNoneState w of
           Inl e \<Rightarrow> (Inl e, w)
         | Inr u \<Rightarrow>
             (case fn args w of
                (Inl e, w1) \<Rightarrow> (Inl e, w1)
              | (Inr v, w1) \<Rightarrow>
                  if \<not> isPromise v then (Inr v, w1)
                  else
                    (let w2 = (case update_stack_area w1 of
                                 Some view \<Rightarrow> run_update_stack_area view w1
                               | None \<Rightarrow> w1);
                         w3 = asyncify_start_unwind (data_addr w2) w2;
                         w4 = w3\<lparr>value := v\<rparr>
                     in (Inr JUndefined, w4)))))"

text \<open>
  A host function that does not reach back into the instance: it works on the host's
  own state only.
\<close>

definition host_fn :: "(jsval list \<Rightarrow> 'h \<Rightarrow> (error + jsval) \<times> 'h) \<Rightarrow> ('s, 'h) jsfun" where
  "host_fn f args w = (case f args (host w) of (r, h) \<Rightarrow> (r, w\<lparr>host := h\<rparr>))"

section \<open>The export wrapper\<close>

text \<open>
  \<^verbatim>\<open>
  newExport = async (...args) => {
    this.assertNoneState();
    let result = fn(...args);
    while (this.getState() === State.Unwinding) {
      this.exports.asyncify_stop_unwind();
      this.value = await this.value;
      this.assertNoneState();
      this.exports.asyncify_start_rewind(this.data_addr);
      result = fn(...args);
    }
    this.assertNoneState();
    return result;
  };
  \<close>
  An asynchronous function runs until its first \<^verbatim>\<open>await\<close> or its end and returns a
  promise: already resolved, already rejected (by anything thrown in the body), or pending
  on the awaited value. When the awaited value settles, the body is resumed after the
  \<^verbatim>\<open>await\<close>, with the fulfilment value as the value of the \<^verbatim>\<open>await\<close> expression or
  with the rejection thrown from it.
\<close>

datatype async_result = Resolved jsval | Rejected error | Awaiting jsval

datatype settled = Fulfilled jsval | RejectedWith error

text \<open>The loop test with what follows it up to the \<^verbatim>\<open>await\<close> or the \<^verbatim>\<open>return\<close>.\<close>

definition newExport_loop :: "jsval \<Rightarrow> ('s, 'h) world \<Rightarrow> async_result \<times> ('s, 'h) world" where
  "newExport_loop result w =
     (if getState w = State_Unwinding then
        (let w1 = asyncify_stop_unwind w in (Awaiting (value w1), w1))
      else
        (case assertNoneState w of
           Inl e \<Rightarrow> (Rejected e, w)
         | Inr u \<Rightarrow> (Resolved result, w)))"

text \<open>The call of the wrapper: from the start of the body.\<close>

definition newExport ::
  "('s, 'h) jsfun \<Rightarrow> jsval list \<Rightarrow> ('s, 'h) world \<Rightarrow> async_result \<times> ('s, 'h) world" where
  "newExport fn args w =
     (case assertNoneState w of
        Inl e \<Rightarrow> (Rejected e, w)
      | Inr u \<Rightarrow>
          (case fn args w of
             (Inl e, w1) \<Rightarrow> (Rejected e, w1)
           | (Inr result, w1) \<Rightarrow> newExport_loop result w1))"

text \<open>
  The resumption of a suspended wrapper, in the world as it is when the awaited value
  has settled: the assignment to \<^verbatim>\<open>this.value\<close> and the rest of the loop body.
\<close>

definition newExport_resume ::
  "('s, 'h) jsfun \<Rightarrow> jsval list \<Rightarrow> settled \<Rightarrow> ('s, 'h) world \<Rightarrow> async_result \<times> ('s, 'h) world" where
  "newExport_resume fn args s w =
     (case s of
        RejectedWith e \<Rightarrow> (Rejected e, w)
      | Fulfilled v \<Rightarrow>
          (let w1 = w\<lparr>value := v\<rparr> in
           case assertNoneState w1 of
             Inl e \<Rightarrow> (Rejected e, w1)
           | Inr u \<Rightarrow>
               (let w2 = asyncify_start_rewind (data_addr w1) w1 in
                case fn args w2 of
                  (Inl e, w3) \<Rightarrow> (Rejected e, w3)
                | (Inr result, w3) \<Rightarrow> newExport_loop result w3)))"

text \<open>
  The host's scheduler: it resumes the wrapper each time the awaited value has settled,
  \<open>settle\<close> giving the outcome of every awaited value, until the promise of the call is
  settled. Nothing else touches the instance while the wrapper is suspended. The loop of
  the source has no bound: the fuel counts the resumptions allowed, and \<open>None\<close> says that
  the promise is still pending when it is used up.
\<close>

fun run_to_completion ::
  "nat \<Rightarrow> ('s, 'h) jsfun \<Rightarrow> jsval list \<Rightarrow> (jsval \<Rightarrow> settled) \<Rightarrow>
   async_result \<times> ('s, 'h) world \<Rightarrow> (settled \<times> ('s, 'h) world) option" where
  "run_to_completion n fn args settle (Resolved r, w) = Some (Fulfilled r, w)"
| "run_to_completion n fn args settle (Rejected e, w) = Some (RejectedWith e, w)"
| "run_to_completion 0 fn args settle (Awaiting v, w) = None"
| "run_to_completion (Suc n) fn args settle (Awaiting v, w) =
     run_to_completion n fn args settle (newExport_resume fn args (settle v) w)"

section \<open>Wrapper identity\<close>

text \<open>
  \<^verbatim>\<open>const WRAPPED_EXPORTS = new WeakMap();\<close>
  The map is keyed by object identity and holds two kinds of entries: a raw export
  function with its wrapper (set by \<open>wrapExportFn\<close>) and a raw export object with the
  wrapped export object (set by \<open>wrapExports\<close>). Functions and export objects are
  different objects, so the two kinds are kept in two maps. \<open>closures\<close> records what each
  function object created by a wrap operation is, and \<open>next_closure\<close> is the identity that
  the next created function object receives.
\<close>

datatype closure = NewExport fnref | WrappedImport fnref

record registry =
  WRAPPED_EXPORTS :: "fnref \<rightharpoonup> fnref"
  WRAPPED_EXPORT_OBJECTS :: "nat \<rightharpoonup> (string \<times> extern) list"
  closures :: "nat \<rightharpoonup> closure"
  next_closure :: nat

text \<open>Evaluating a function expression creates a function object that did not exist before.\<close>

definition new_closure :: "closure \<Rightarrow> registry \<Rightarrow> fnref \<times> registry" where
  "new_closure c reg =
     (Closure (next_closure reg),
      reg\<lparr>closures := (closures reg)(next_closure reg \<mapsto> c),
          next_closure := Suc (next_closure reg)\<rparr>)"

text \<open>
  \<open>wrapImportFn\<close> returns the arrow function it evaluates, whatever was wrapped before.
\<close>

definition wrapImportFn :: "fnref \<Rightarrow> registry \<Rightarrow> fnref \<times> registry" where
  "wrapImportFn fn reg = new_closure (WrappedImport fn) reg"

text \<open>
  \<^verbatim>\<open>
  function proxyGet(obj, transform) {
    return new Proxy(obj, { get: (obj, name) => transform(obj[name]) });
  }

  wrapModuleImports(module) {
    return proxyGet(module, value => {
      if (typeof value === 'function') {
        return this.wrapImportFn(value);
      }
      return value;
    });
  }
  \<close>
  A proxy has no state of its own: what matters is a read of one of its properties, which
  runs the transform on the property of the wrapped object. \<open>None\<close> is \<^verbatim>\<open>undefined\<close>.
\<close>

definition wrapModuleImports_get ::
  "(string \<times> extern) list \<Rightarrow> string \<Rightarrow> registry \<Rightarrow> extern option \<times> registry" where
  "wrapModuleImports_get module name reg =
     (case map_of module name of
        Some (Func fn) \<Rightarrow>
          (case wrapImportFn fn reg of (wrapped, reg1) \<Rightarrow> (Some (Func wrapped), reg1))
      | other \<Rightarrow> (other, reg))"

text \<open>
  \<^verbatim>\<open>
  wrapImports(imports) {
    if (imports === undefined) return;
    return proxyGet(imports, (moduleImports = Object.create(null)) =>
      this.wrapModuleImports(moduleImports)
    );
  }
  \<close>
  A read of \<^verbatim>\<open>imports[module_name][name]\<close> through the two proxies, for an import
  object that is given; an import module that is missing reads as an empty one.
\<close>

definition wrapImports_get ::
  "(string \<times> (string \<times> extern) list) list \<Rightarrow> string \<Rightarrow> string \<Rightarrow> registry \<Rightarrow>
   extern option \<times> registry" where
  "wrapImports_get imports module_name name reg =
     wrapModuleImports_get
       (case map_of imports module_name of Some moduleImports \<Rightarrow> moduleImports | None \<Rightarrow> [])
       name reg"

text \<open>
  \<^verbatim>\<open>
  wrapExportFn(fn) {
    let newExport = WRAPPED_EXPORTS.get(fn);
    if (newExport !== undefined) {
      return newExport;
    }
    newExport = async (...args) => { ... };
    WRAPPED_EXPORTS.set(fn, newExport);
    return newExport;
  }
  \<close>
\<close>

definition wrapExportFn :: "fnref \<Rightarrow> registry \<Rightarrow> fnref \<times> registry" where
  "wrapExportFn fn reg =
     (case WRAPPED_EXPORTS reg fn of
        Some cached \<Rightarrow> (cached, reg)
      | None \<Rightarrow>
          (case new_closure (NewExport fn) reg of
             (created, reg1) \<Rightarrow>
               (created, reg1\<lparr>WRAPPED_EXPORTS := (WRAPPED_EXPORTS reg1)(fn \<mapsto> created)\<rparr>)))"

text \<open>\<^verbatim>\<open>exportName.startsWith('asyncify_')\<close>\<close>

definition startsWith :: "string \<Rightarrow> string \<Rightarrow> bool" where
  "startsWith s p \<longleftrightarrow> take (length p) s = p"

text \<open>
  \<^verbatim>\<open>
  wrapExports(exports) {
    let newExports = Object.create(null);
    for (let exportName in exports) {
      let value = exports[exportName];
      if (typeof value === 'function' && !exportName.startsWith('asyncify_')) {
        value = this.wrapExportFn(value);
      }
      Object.defineProperty(newExports, exportName, { enumerable: true, value });
    }
    WRAPPED_EXPORTS.set(exports, newExports);
    return newExports;
  }
  \<close>
  An export object is the list of its properties in the order of enumeration, with
  distinct names; \<open>exports_id\<close> is its identity.
\<close>

fun wrapExports_loop ::
  "(string \<times> extern) list \<Rightarrow> registry \<Rightarrow> (string \<times> extern) list \<times> registry" where
  "wrapExports_loop [] reg = ([], reg)"
| "wrapExports_loop ((exportName, v) # rest) reg =
     (case (case v of
              Func fn \<Rightarrow>
                if \<not> startsWith exportName ''asyncify_''
                then (case wrapExportFn fn reg of (wrapped, reg1) \<Rightarrow> (Func wrapped, reg1))
                else (v, reg)
            | other \<Rightarrow> (v, reg)) of
        (v1, reg1) \<Rightarrow>
          (case wrapExports_loop rest reg1 of
             (newExports, reg2) \<Rightarrow> ((exportName, v1) # newExports, reg2)))"

definition wrapExports ::
  "nat \<Rightarrow> (string \<times> extern) list \<Rightarrow> registry \<Rightarrow> (string \<times> extern) list \<times> registry" where
  "wrapExports exports_id exports reg =
     (case wrapExports_loop exports reg of
        (newExports, reg1) \<Rightarrow>
          (newExports,
           reg1\<lparr>WRAPPED_EXPORT_OBJECTS :=
                  (WRAPPED_EXPORT_OBJECTS reg1)(exports_id \<mapsto> newExports)\<rparr>))"

text \<open>
  Calling a function object. \<open>behaviour\<close> gives what a function does that no wrap
  operation created, and what a wrapped function does. A closure made by \<open>wrapExportFn\<close>
  is an asynchronous function: its call returns a promise, seen here at the moment of the
  return. Every other call returns a value or throws.
\<close>

datatype call_result = Sync "error + jsval" | Promise async_result

definition call ::
  "(fnref \<Rightarrow> ('s, 'h) jsfun) \<Rightarrow> registry \<Rightarrow> fnref \<Rightarrow> jsval list \<Rightarrow> ('s, 'h) world \<Rightarrow>
   call_result \<times> ('s, 'h) world" where
  "call behaviour reg f args w =
     (case f of
        Raw k \<Rightarrow> (case behaviour f args w of (r, w1) \<Rightarrow> (Sync r, w1))
      | Closure c \<Rightarrow>
          (case closures reg c of
             Some (NewExport fn) \<Rightarrow>
               (case newExport (behaviour fn) args w of (r, w1) \<Rightarrow> (Promise r, w1))
           | Some (WrappedImport fn) \<Rightarrow>
               (case wrappedImport (behaviour fn) args w of (r, w1) \<Rightarrow> (Sync r, w1))
           | None \<Rightarrow> (case behaviour f args w of (r, w1) \<Rightarrow> (Sync r, w1))))"

text \<open>
  The wrapper cache as the wrap operations keep it: every cached wrapper is a closure
  made by \<open>wrapExportFn\<close> for its key, and every closure in existence is older than the
  next one.
\<close>

definition registry_ok :: "registry \<Rightarrow> bool" where
  "registry_ok reg \<longleftrightarrow>
     (\<forall>fn w. WRAPPED_EXPORTS reg fn = Some w \<longrightarrow>
        (\<exists>c. w = Closure c \<and> closures reg c = Some (NewExport fn))) \<and>
     (\<forall>c. c \<in> dom (closures reg) \<longrightarrow> c < next_closure reg)"

text \<open>The registry when the source file has just been loaded.\<close>

definition empty_registry :: registry where
  "empty_registry =
     \<lparr>WRAPPED_EXPORTS = Map.empty, WRAPPED_EXPORT_OBJECTS = Map.empty,
      closures = Map.empty, next_closure = 0\<rparr>"

section \<open>Instantiation\<close>

text \<open>
  \<^verbatim>\<open>new Int32Array(memory.buffer, this.data_addr, 2)\<close> throws a RangeError unless the
  offset is a non-negative multiple of four and both elements lie inside the buffer.
\<close>

definition valid_view :: "int \<Rightarrow> int \<Rightarrow> bool" where
  "valid_view offset byte_length \<longleftrightarrow>
     0 \<le> offset \<and> offset mod 4 = 0 \<and> offset + 8 \<le> byte_length"

text \<open>
  \<^verbatim>\<open>
  init(instance, imports) {
    const { exports } = instance;
    const memory = exports.memory || (imports.env && imports.env.memory);
    if(exports.__asyncify_data){
      this.data_addr = exports.__asyncify_data.value;
    }else{
      this.data_addr = DATA_ADDR;
    }
    const data_start_end = new Int32Array(memory.buffer, this.data_addr, 2);
    if(!data_start_end[0] && !data_start_end[1]){
      if(exports.__stack_low && exports.__stack_pointer){
        data_start_end[0] = exports.__stack_low.value;
        this.update_stack_area = ()=>{ data_start_end[1] = exports.__stack_pointer; };
      }else{
        data_start_end.set([DATA_START, DATA_END]);
      }
    }
    this.exports = this.wrapExports(exports);
    Object.setPrototypeOf(instance, Instance.prototype);
  }
  \<close>
  The part of \<open>init\<close> before \<open>wrapExports\<close>. \<^verbatim>\<open>instance.exports\<close> is the raw export
  object, as for the instance that \<^verbatim>\<open>instantiate\<close> passes. The memory of the world is
  the memory that the first line finds, when it finds one: \<open>env_memory\<close> says whether the
  import object has \<^verbatim>\<open>env.memory\<close>, and an export named \<^verbatim>\<open>memory\<close> is the memory;
  with neither, reading \<^verbatim>\<open>memory.buffer\<close> throws a TypeError. An export object is truthy, so a symbol
  is found when it is exported. The \<^verbatim>\<open>.value\<close> of a global read as an address is its
  signed value; of any other export object it is \<^verbatim>\<open>undefined\<close>, which is offset 0 for
  the view and address 0 for the engine.
\<close>

definition resolve_data_addr :: "(string \<times> extern) list \<Rightarrow> int" where
  "resolve_data_addr exports =
     (case map_of exports ''__asyncify_data'' of
        Some (Global g) \<Rightarrow> sint g
      | Some other \<Rightarrow> 0
      | None \<Rightarrow> DATA_ADDR)"

definition init_descriptor :: "bool \<Rightarrow> ('s, 'h) world \<Rightarrow> error + ('s, 'h) world" where
  "init_descriptor env_memory w =
     (let exports = instance_exports w in
      if map_of exports ''memory'' = None \<and> \<not> env_memory then Inl TypeError
      else
        (let w1 = w\<lparr>data_addr := resolve_data_addr exports\<rparr>;
             view = data_addr w1
         in
         if \<not> valid_view view (memory_size w1) then Inl RangeError
         else if memory w1 view = 0 \<and> memory w1 (view + 4) = 0 then
           (if map_of exports ''__stack_low'' \<noteq> None \<and> map_of exports ''__stack_pointer'' \<noteq> None
            then
              Inr (w1\<lparr>memory := (memory w1)(view := to_int32 (map_of exports ''__stack_low'')),
                      update_stack_area := Some view\<rparr>)
            else
              Inr (w1\<lparr>memory := (memory w1)
                        (view := word_of_int DATA_START, view + 4 := word_of_int DATA_END)\<rparr>))
         else Inr w1))"

text \<open>
  The whole of \<open>init\<close>: the descriptor, then the wrapped exports, published under the
  identity of the raw export object.
\<close>

definition init ::
  "bool \<Rightarrow> nat \<Rightarrow> ('s, 'h) world \<Rightarrow> registry \<Rightarrow>
   error + (('s, 'h) world \<times> (string \<times> extern) list \<times> registry)" where
  "init env_memory exports_id w reg =
     (case init_descriptor env_memory w of
        Inl e \<Rightarrow> Inl e
      | Inr w1 \<Rightarrow>
          (case wrapExports exports_id (instance_exports w1) reg of
             (newExports, reg1) \<Rightarrow> Inr (w1, newExports, reg1)))"

section \<open>An instrumented module\<close>

text \<open>
  The module and the engine are outside the source: the wrappers only assume that an
  instrumented module, told to unwind, saves where it is and returns to its caller, and
  that, called while rewinding, it goes back to where it was and repeats the import call
  it had suspended in. The following module does that and nothing else. A body is what
  an export does with its arguments: it returns a value, or calls an import and goes on
  with what the call returned. Memory, locals and the call depth are inside the
  continuation.
\<close>

datatype prog =
    Return jsval
  | CallImport nat "jsval list" "jsval \<Rightarrow> prog"

text \<open>
  Running a body, \<open>imports\<close> being the functions the module was instantiated with. When
  an import call comes back with the engine unwinding, the frame is saved and the export
  returns at once, with a value that nobody uses; anything thrown goes through.
\<close>

primrec run_prog ::
  "(nat \<Rightarrow> (prog option, 'h) jsfun) \<Rightarrow> prog \<Rightarrow> (prog option, 'h) world \<Rightarrow>
   (error + jsval) \<times> (prog option, 'h) world" where
  "run_prog imports (Return v) = (\<lambda>w. (Inr v, w))"
| "run_prog imports (CallImport i args k) =
     (\<lambda>w. case imports i args w of
        (Inl e, w1) \<Rightarrow> (Inl e, w1)
      | (Inr v, w1) \<Rightarrow>
          if asyncify_state w1 = State_Unwinding
          then (Inr (JNum 0), w1\<lparr>save_area := Some (CallImport i args k)\<rparr>)
          else run_prog imports (k v) w1)"

text \<open>
  A raw export of the module. While rewinding it resumes the saved frame, which repeats
  the suspended import call; a rewind with nothing saved traps.
\<close>

definition module_export ::
  "(nat \<Rightarrow> (prog option, 'h) jsfun) \<Rightarrow> (jsval list \<Rightarrow> prog) \<Rightarrow> (prog option, 'h) jsfun" where
  "module_export imports body args w =
     (if asyncify_state w = State_Rewinding then
        (case save_area w of
           Some p \<Rightarrow> run_prog imports p w
         | None \<Rightarrow> (Inl (Thrown (JStr ''unreachable'')), w))
      else run_prog imports (body args) w)"

text \<open>
  The imports that the module is instantiated with are the wrapped host functions.
\<close>

definition wrapped_imports ::
  "(nat \<Rightarrow> jsval list \<Rightarrow> 'h \<Rightarrow> (error + jsval) \<times> 'h) \<Rightarrow> nat \<Rightarrow> (prog option, 'h) jsfun" where
  "wrapped_imports host_imports i = wrappedImport (host_fn (host_imports i))"

text \<open>
  What the same body does when every import call is made once, in order, and an
  asynchronous result is waited for on the spot: the outcome, the state of the host at
  the end, and the number of asynchronous results met.
\<close>

primrec direct ::
  "(nat \<Rightarrow> jsval list \<Rightarrow> 'h \<Rightarrow> (error + jsval) \<times> 'h) \<Rightarrow> (jsval \<Rightarrow> settled) \<Rightarrow> prog \<Rightarrow>
   'h \<Rightarrow> settled \<times> 'h \<times> nat" where
  "direct host_imports settle (Return v) = (\<lambda>h. (Fulfilled v, h, 0))"
| "direct host_imports settle (CallImport i args k) =
     (\<lambda>h. case host_imports i args h of
        (Inl e, h1) \<Rightarrow> (RejectedWith e, h1, 0)
      | (Inr v, h1) \<Rightarrow>
          if \<not> isPromise v then direct host_imports settle (k v) h1
          else
            (case settle v of
               RejectedWith e \<Rightarrow> (RejectedWith e, h1, 1)
             | Fulfilled v1 \<Rightarrow>
                 (case direct host_imports settle (k v1) h1 of
                    (r, h2, n) \<Rightarrow> (r, h2, Suc n))))"

text \<open>
  Host functions that also keep a log of the calls made to them, and the calls that the
  body makes when every import call is made once.
\<close>

definition logged ::
  "(nat \<Rightarrow> jsval list \<Rightarrow> 'h \<Rightarrow> (error + jsval) \<times> 'h) \<Rightarrow>
   nat \<Rightarrow> jsval list \<Rightarrow> 'h \<times> (nat \<times> jsval list) list \<Rightarrow>
   (error + jsval) \<times> ('h \<times> (nat \<times> jsval list) list)" where
  "logged host_imports i args hl =
     (case host_imports i args (fst hl) of (r, h) \<Rightarrow> (r, (h, snd hl @ [(i, args)])))"

primrec direct_calls ::
  "(nat \<Rightarrow> jsval list \<Rightarrow> 'h \<Rightarrow> (error + jsval) \<times> 'h) \<Rightarrow> (jsval \<Rightarrow> settled) \<Rightarrow> prog \<Rightarrow>
   'h \<Rightarrow> (nat \<times> jsval list) list" where
  "direct_calls host_imports settle (Return v) = (\<lambda>h. [])"
| "direct_calls host_imports settle (CallImport i args k) =
     (\<lambda>h. (i, args) #
        (case host_imports i args h of
           (Inl e, h1) \<Rightarrow> []
         | (Inr v, h1) \<Rightarrow>
             if \<not> isPromise v then direct_calls host_imports settle (k v) h1
             else
               (case settle v of
                  RejectedWith e \<Rightarrow> []
                | Fulfilled v1 \<Rightarrow> direct_calls host_imports settle (k v1) h1)))"

section \<open>A module, a host and an instance to run\<close>

text \<open>
  A promise of the host that will be fulfilled with a given number, and the outcome of
  waiting for a value: a promise of this kind is fulfilled with its number, and any other
  value is its own outcome.
\<close>

definition delayed :: "int \<Rightarrow> jsval" where
  "delayed n = JObject [(''then'', JFunction []), (''answer'', JNum n)]"

definition settle_answer :: "jsval \<Rightarrow> settled" where
  "settle_answer v =
     (if \<not> isPromise v then Fulfilled v else Fulfilled (getProp v ''answer''))"

text \<open>
  Host functions whose state is the number of calls made to them: import 0 answers at
  once with 42, every other import answers later with 7 plus its number of earlier calls.
\<close>

definition counting_imports :: "nat \<Rightarrow> jsval list \<Rightarrow> nat \<Rightarrow> (error + jsval) \<times> nat" where
  "counting_imports i args calls =
     (if i = 0 then (Inr (JNum 42), Suc calls)
      else (Inr (delayed (7 + int calls)), Suc calls))"

text \<open>
  Exports that call one import and return what it gave, and an export that calls the
  delayed import twice in sequence and returns both results.
\<close>

definition call_once :: "nat \<Rightarrow> jsval list \<Rightarrow> prog" where
  "call_once i args = CallImport i args (\<lambda>a. Return a)"

definition call_twice :: "jsval list \<Rightarrow> prog" where
  "call_twice args =
     CallImport 1 args
       (\<lambda>a. CallImport 1 args (\<lambda>b. Return (JObject [(''first'', a), (''second'', b)])))"

text \<open>An import object with one module, which holds one host function.\<close>

definition host_imports_object :: "(string \<times> (string \<times> extern) list) list" where
  "host_imports_object = [(''env'', [(''now'', Func (Raw 9))])]"

text \<open>
  An idle instance of a module that exports its memory, the state query, the four control
  operations and two functions, with a zeroed save-area descriptor, for a given state of
  the host; and the one whose host has counted no call yet.
\<close>

definition plain_exports :: "(string \<times> extern) list" where
  "plain_exports =
     [(''memory'', Memory),
      (''asyncify_get_state'', Func (Raw 0)),
      (''asyncify_start_unwind'', Func (Raw 1)),
      (''asyncify_stop_unwind'', Func (Raw 2)),
      (''asyncify_start_rewind'', Func (Raw 3)),
      (''asyncify_stop_rewind'', Func (Raw 4)),
      (''run'', Func (Raw 5)),
      (''asyncify_extra'', Func (Raw 6))]"

definition idle_instance :: "'h \<Rightarrow> (prog option, 'h) world" where
  "idle_instance h =
     \<lparr>value = JUndefined, update_stack_area = None, data_addr = DATA_ADDR,
      asyncify_state = State_None, memory = (\<lambda>a. 0), memory_size = 65536,
      instance_exports = plain_exports, engine_calls = [], save_area = None, host = h\<rparr>"

definition idle_world :: "(prog option, nat) world" where
  "idle_world = idle_instance 0"

text \<open>
  The same instance before \<open>init\<close>, of a module that also exports the low stack mark and
  the stack pointer, with the values 100 and 500; and the stack pointer moved to a new
  value by the running module.
\<close>

definition stack_exports :: "32 word \<Rightarrow> (string \<times> extern) list" where
  "stack_exports sp =
     plain_exports @ [(''__stack_low'', Global 100), (''__stack_pointer'', Global sp)]"

definition fresh_world :: "(prog option, nat) world" where
  "fresh_world = idle_world\<lparr>data_addr := 0, instance_exports := stack_exports 500\<rparr>"

text \<open>The two words of the save-area descriptor.\<close>

definition descriptor :: "('s, 'h) world \<Rightarrow> 32 word \<times> 32 word" where
  "descriptor w = (memory w (data_addr w), memory w (data_addr w + 4))"

text \<open>The world that \<open>init\<close> leaves, when it succeeds.\<close>

definition initialised ::
  "error + (('s, 'h) world \<times> (string \<times> extern) list \<times> registry) \<Rightarrow> ('s, 'h) world option" where
  "initialised r = (case r of Inl e \<Rightarrow> None | Inr (w, newExports, reg) \<Rightarrow> Some w)"

text \<open>The number of unwinds that the engine was told to start.\<close>

fun unwinds :: "engine_call list \<Rightarrow> nat" where
  "unwinds [] = 0"
| "unwinds (StartUnwind addr # cs) = Suc (unwinds cs)"
| "unwinds (c # cs) = unwinds cs"

text \<open>
  What the wrapper does with the outcome of a call of the original export: a throw
  rejects the promise, a return enters the loop.
\<close>

definition after_call ::
  "(error + jsval) \<times> ('s, 'h) world \<Rightarrow> async_result \<times> ('s, 'h) world" where
  "after_call c =
     (case c of
        (Inl e, w) \<Rightarrow> (Rejected e, w)
      | (Inr result, w) \<Rightarrow> newExport_loop result w)"

text \<open>
  The world after the asynchronous path of a wrapped import: the stack-update hook has
  run if there is one, the engine has been told to unwind at \<open>data_addr\<close>, and the
  asynchronous result is the pending value.
\<close>

definition unwound :: "jsval \<Rightarrow> ('s, 'h) world \<Rightarrow> ('s, 'h) world" where
  "unwound v w =
     w\<lparr>memory := (case update_stack_area w of
                    Some view \<Rightarrow>
                      (memory w)
                      (view + 4 := to_int32 (map_of (instance_exports w) ''__stack_pointer''))
                  | None \<Rightarrow> memory w),
       asyncify_state := State_Unwinding,
       engine_calls := engine_calls w @ [StartUnwind (data_addr w)],
       value := v\<rparr>"

text \<open>
  The loop of the export wrapper in the specification's words, for a given number of
  rounds: the last call has ended with the engine unwinding; stop unwinding, wait for the
  pending value and keep what it is fulfilled with, assert that the instance is idle,
  start rewinding at \<open>data_addr\<close>, call the original export again with the same
  arguments. The result is the outcome of the call that ends the last round, and \<open>None\<close>
  when one of the rounds cannot be made.
\<close>

fun spec_cycles ::
  "nat \<Rightarrow> ('s, 'h) jsfun \<Rightarrow> jsval list \<Rightarrow> (jsval \<Rightarrow> settled) \<Rightarrow>
   (error + jsval) \<times> ('s, 'h) world \<Rightarrow> ((error + jsval) \<times> ('s, 'h) world) option" where
  "spec_cycles 0 fn args settle c = Some c"
| "spec_cycles (Suc n) fn args settle (Inl e, w) = None"
| "spec_cycles (Suc n) fn args settle (Inr result, w) =
     (if getState w \<noteq> State_Unwinding then None
      else
        (let w1 = asyncify_stop_unwind w in
         case settle (value w1) of
           RejectedWith e \<Rightarrow> None
         | Fulfilled v \<Rightarrow>
             (let w2 = w1\<lparr>value := v\<rparr> in
              case assertNoneState w2 of
                Inl e \<Rightarrow> None
              | Inr u \<Rightarrow>
                  spec_cycles n fn args settle
                    (fn args (asyncify_start_rewind (data_addr w2) w2)))))"

text \<open>
  An export of a module that was not instrumented for the rewind: it calls the delayed
  import, and called while rewinding it returns at once.
\<close>

definition unreplayed_export :: "(prog option, nat) jsfun" where
  "unreplayed_export args w =
     (if asyncify_state w = State_Rewinding then (Inr (JNum 5), w)
      else run_prog (wrapped_imports counting_imports) (call_once 1 args) w)"

text \<open>
  The wrap operations that an instance can perform, and a sequence of them.
\<close>

datatype wrap_op =
    WrapExportFn fnref
  | WrapImportFn fnref
  | ReadImport "(string \<times> (string \<times> extern) list) list" string string
  | WrapExports nat "(string \<times> extern) list"

fun do_wrap :: "wrap_op \<Rightarrow> registry \<Rightarrow> registry" where
  "do_wrap (WrapExportFn fn) reg = snd (wrapExportFn fn reg)"
| "do_wrap (WrapImportFn fn) reg = snd (wrapImportFn fn reg)"
| "do_wrap (ReadImport imports module_name name) reg =
     snd (wrapImports_get imports module_name name reg)"
| "do_wrap (WrapExports exports_id exports) reg = snd (wrapExports exports_id exports reg)"

text \<open>
  Worlds that the runs below end in: after the two rounds of \<open>call_twice\<close>; after the
  replay of \<open>unreplayed_export\<close>, which left the engine rewinding; and after \<open>init\<close> on
  \<open>fresh_world\<close>.
\<close>

definition after_two_rounds :: "(prog option, nat) world" where
  "after_two_rounds =
     idle_world\<lparr>value := JNum 8, host := 2,
       save_area :=
         Some (CallImport 1 [] (\<lambda>b. Return (JObject [(''first'', JNum 7), (''second'', b)]))),
       engine_calls := [StartUnwind 16, StopUnwind, StartRewind 16, StopRewind,
                        StartUnwind 16, StopUnwind, StartRewind 16, StopRewind]\<rparr>"

definition left_rewinding :: "(prog option, nat) world" where
  "left_rewinding =
     idle_world\<lparr>value := JNum 7, host := 1,
       save_area := Some (CallImport 1 [] (\<lambda>a. Return a)),
       asyncify_state := State_Rewinding,
       engine_calls := [StartUnwind 16, StopUnwind, StartRewind 16]\<rparr>"

definition seeded_world :: "(prog option, nat) world" where
  "seeded_world =
     fresh_world\<lparr>data_addr := 16, memory := (\<lambda>a. 0)(16 := 100), update_stack_area := Some 16\<rparr>"

section \<open>Auxiliary facts\<close>

subsection \<open>The wrappers, case by case\<close>

lemma isPromise_iff_thenable: "isPromise v \<longleftrightarrow> thenable v"
  by (cases v) (auto simp: isPromise_def thenable_def is_callable_def
      split: option.splits jsval.splits)

lemma getState_simps [simp]:
  "getState (asyncify_stop_unwind w) = State_None"
  "getState (asyncify_stop_rewind w) = State_None"
  "getState (asyncify_start_unwind a w) = State_Unwinding"
  "getState (asyncify_start_rewind a w) = State_Rewinding"
  "getState (w\<lparr>value := v\<rparr>) = getState w"
  "getState (w\<lparr>host := h\<rparr>) = getState w"
  "getState (w\<lparr>save_area := s\<rparr>) = getState w"
  by (simp_all add: getState_def asyncify_get_state_def asyncify_stop_unwind_def
      asyncify_stop_rewind_def asyncify_start_unwind_def asyncify_start_rewind_def)

lemma wrappedImport_rewinding:
  "getState w = State_Rewinding \<Longrightarrow>
   wrappedImport fn args w = (Inr (value w), asyncify_stop_rewind w)"
  by (simp add: wrappedImport_def Let_def asyncify_stop_rewind_def)

lemma wrappedImport_unwinding:
  "getState w = State_Unwinding \<Longrightarrow>
   wrappedImport fn args w = (Inl (InvalidAsyncState State_Unwinding), w)"
  by (simp add: wrappedImport_def assertNoneState_def)

lemma wrappedImport_throws:
  "getState w = State_None \<Longrightarrow> fn args w = (Inl e, w1) \<Longrightarrow>
   wrappedImport fn args w = (Inl e, w1)"
  by (simp add: wrappedImport_def assertNoneState_def)

lemma wrappedImport_plain:
  "getState w = State_None \<Longrightarrow> fn args w = (Inr v, w1) \<Longrightarrow> \<not> isPromise v \<Longrightarrow>
   wrappedImport fn args w = (Inr v, w1)"
  by (simp add: wrappedImport_def assertNoneState_def)

lemma wrappedImport_async:
  "getState w = State_None \<Longrightarrow> fn args w = (Inr v, w1) \<Longrightarrow> isPromise v \<Longrightarrow>
   wrappedImport fn args w = (Inr JUndefined, unwound v w1)"
  by (simp add: wrappedImport_def assertNoneState_def Let_def unwound_def
      run_update_stack_area_def asyncify_start_unwind_def split: option.splits)


lemma unwinds_append [simp]: "unwinds (xs @ ys) = unwinds xs + unwinds ys"
  by (induction xs rule: unwinds.induct) simp_all

lemma newExport_idle:
  "getState w = State_None \<Longrightarrow> newExport fn args w = after_call (fn args w)"
  by (simp add: newExport_def after_call_def assertNoneState_def split: prod.splits sum.splits)

lemma newExport_resume_fulfilled:
  "getState w = State_None \<Longrightarrow>
   newExport_resume fn args (Fulfilled v) w =
     after_call (fn args (asyncify_start_rewind (data_addr w) (w\<lparr>value := v\<rparr>)))"
  by (simp add: newExport_resume_def after_call_def assertNoneState_def Let_def
      split: prod.splits sum.splits)

lemma after_call_idle:
  "getState w = State_None \<Longrightarrow> after_call (Inr r, w) = (Resolved r, w)"
  by (simp add: after_call_def newExport_loop_def assertNoneState_def)

lemma after_call_unwinding:
  "getState w = State_Unwinding \<Longrightarrow>
   after_call (Inr r, w) = (Awaiting (value w), asyncify_stop_unwind w)"
  by (simp add: after_call_def newExport_loop_def Let_def asyncify_stop_unwind_def)

lemma after_call_throw: "after_call (Inl e, w) = (Rejected e, w)"
  by (simp add: after_call_def)

text \<open>While the wrapper waits for the pending value, the instance is idle.\<close>

lemma suspended_wrapper_idle:
  "newExport_loop result w = (Awaiting v, w1) \<Longrightarrow> getState w1 = State_None"
  by (auto simp: newExport_loop_def Let_def assertNoneState_def split: if_splits)

lemma run_prog_refines:
  fixes w :: "(prog option, 'h) world"
  assumes "getState w = State_None"
    and "direct hi settle p (host w) = (out, h, n)"
  shows "\<exists>w1. run_to_completion n (module_export (wrapped_imports hi) body) args settle
            (after_call (run_prog (wrapped_imports hi) p w)) = Some (out, w1) \<and>
          host w1 = h \<and> getState w1 = State_None \<and>
          unwinds (engine_calls w1) = unwinds (engine_calls w) + n"
  using assms
proof (induction p arbitrary: w out h n)
  case (Return v)
  then show ?case by (auto simp: after_call_idle)
next
  case (CallImport i a k)
  obtain r h1 where call: "hi i a (host w) = (r, h1)" by (cases "hi i a (host w)")
  let ?w1 = "w\<lparr>host := h1\<rparr>"
  have hostcall: "host_fn (hi i) a w = (r, ?w1)" by (simp add: host_fn_def call)
  have idle1: "getState ?w1 = State_None" using CallImport.prems(1) by simp
  show ?case
  proof (cases r)
    case (Inl e)
    then have "wrapped_imports hi i a w = (Inl e, ?w1)"
      using wrappedImport_throws [OF CallImport.prems(1)] hostcall
      by (simp add: wrapped_imports_def)
    moreover have "out = RejectedWith e" "h = h1" "n = 0"
      using CallImport.prems(2) call Inl by simp_all
    ultimately show ?thesis using idle1 by (simp add: after_call_throw)
  next
    case (Inr v)
    show ?thesis
    proof (cases "isPromise v")
      case False
      then have step: "wrapped_imports hi i a w = (Inr v, ?w1)"
        using wrappedImport_plain [OF CallImport.prems(1)] hostcall Inr
        by (simp add: wrapped_imports_def)
      have d: "direct hi settle (k v) (host ?w1) = (out, h, n)"
        using CallImport.prems(2) call Inr False by simp
      from CallImport.IH [OF _ idle1 d] obtain w2 where
        "run_to_completion n (module_export (wrapped_imports hi) body) args settle
            (after_call (run_prog (wrapped_imports hi) (k v) ?w1)) = Some (out, w2)"
        "host w2 = h" "getState w2 = State_None"
        "unwinds (engine_calls w2) = unwinds (engine_calls ?w1) + n"
        by auto
      moreover have "run_prog (wrapped_imports hi) (CallImport i a k) w
                     = run_prog (wrapped_imports hi) (k v) ?w1"
        using step idle1 by (simp add: getState_def asyncify_get_state_def)
      ultimately show ?thesis by auto
    next
      case True
      let ?w2 = "unwound v ?w1"
      have step: "wrapped_imports hi i a w = (Inr JUndefined, ?w2)"
        using wrappedImport_async [OF CallImport.prems(1)] hostcall Inr True
        by (simp add: wrapped_imports_def)
      let ?w3 = "?w2\<lparr>save_area := Some (CallImport i a k)\<rparr>"
      have run: "run_prog (wrapped_imports hi) (CallImport i a k) w = (Inr (JNum 0), ?w3)"
        using step by (simp add: unwound_def)
      have unw: "getState ?w3 = State_Unwinding"
        by (simp add: unwound_def getState_def asyncify_get_state_def)
      let ?w4 = "asyncify_stop_unwind ?w3"
      have susp: "after_call (run_prog (wrapped_imports hi) (CallImport i a k) w)
                  = (Awaiting v, ?w4)"
        unfolding run after_call_unwinding [OF unw] by (simp add: unwound_def)
      show ?thesis
      proof (cases "settle v")
        case (RejectedWith e)
        then have "out = RejectedWith e" "h = h1" "n = 1"
          using CallImport.prems(2) call Inr True by simp_all
        then show ?thesis
          unfolding susp using RejectedWith
          by (simp add: newExport_resume_def asyncify_stop_unwind_def unwound_def
              getState_def asyncify_get_state_def)
      next
        case (Fulfilled v1)
        obtain r2 h2 n2 where d: "direct hi settle (k v1) h1 = (r2, h2, n2)"
          by (cases "direct hi settle (k v1) h1")
        then have res: "out = r2" "h = h2" "n = Suc n2"
          using CallImport.prems(2) call Inr True Fulfilled by simp_all
        let ?w5 = "asyncify_start_rewind (data_addr ?w4) (?w4\<lparr>value := v1\<rparr>)"
        have idle4: "getState ?w4 = State_None" by simp
        have rew: "asyncify_state ?w5 = State_Rewinding" "save_area ?w5 = Some (CallImport i a k)"
          "getState ?w5 = State_Rewinding" "value ?w5 = v1"
          by (simp_all add: asyncify_start_rewind_def asyncify_stop_unwind_def unwound_def
              getState_def asyncify_get_state_def)
        let ?w6 = "asyncify_stop_rewind ?w5"
        have replay: "wrapped_imports hi i a ?w5 = (Inr v1, ?w6)"
          using wrappedImport_rewinding [OF rew(3)] rew(4) by (simp add: wrapped_imports_def)
        have idle6: "getState ?w6 = State_None" by simp
        have host6: "host ?w6 = h1"
          by (simp add: asyncify_stop_rewind_def asyncify_start_rewind_def
              asyncify_stop_unwind_def unwound_def)
        have calls6: "unwinds (engine_calls ?w6) = Suc (unwinds (engine_calls w))"
          by (simp add: asyncify_stop_rewind_def asyncify_start_rewind_def
              asyncify_stop_unwind_def unwound_def)
        have again: "module_export (wrapped_imports hi) body args ?w5
                     = run_prog (wrapped_imports hi) (k v1) ?w6"
          using rew(1,2) replay idle6
          by (simp add: module_export_def getState_def asyncify_get_state_def)
        have resume: "newExport_resume (module_export (wrapped_imports hi) body) args
                        (Fulfilled v1) ?w4
                      = after_call (run_prog (wrapped_imports hi) (k v1) ?w6)"
          unfolding newExport_resume_fulfilled [OF idle4] again ..
        from d host6 have d6: "direct hi settle (k v1) (host ?w6) = (r2, h2, n2)" by simp
        from CallImport.IH [OF _ idle6 d6] obtain w7 where
          "run_to_completion n2 (module_export (wrapped_imports hi) body) args settle
              (after_call (run_prog (wrapped_imports hi) (k v1) ?w6)) = Some (r2, w7)"
          "host w7 = h2" "getState w7 = State_None"
          "unwinds (engine_calls w7) = unwinds (engine_calls ?w6) + n2"
          by auto
        then show ?thesis
          unfolding susp res using Fulfilled resume calls6 by simp
      qed
    qed
  qed
qed

lemma direct_logged:
  "direct (logged host_imports) settle p (h, log) =
     (case direct host_imports settle p h of
        (out, h1, n) \<Rightarrow> (out, (h1, log @ direct_calls host_imports settle p h), n))"
proof (induction p arbitrary: h log)
  case (Return v)
  then show ?case by simp
next
  case (CallImport i args k)
  obtain r h1 where c: "host_imports i args h = (r, h1)" by (cases "host_imports i args h")
  show ?case
  proof (cases r)
    case (Inl e)
    then show ?thesis using c by (simp add: logged_def)
  next
    case (Inr v)
    show ?thesis
    proof (cases "isPromise v")
      case False
      then show ?thesis using c Inr CallImport.IH [of "k v" h1 "log @ [(i, args)]"]
        by (simp add: logged_def split: prod.splits)
    next
      case True
      show ?thesis
      proof (cases "settle v")
        case (RejectedWith e)
        then show ?thesis using c Inr True by (simp add: logged_def)
      next
        case (Fulfilled v1)
        then show ?thesis using c Inr True CallImport.IH [of "k v1" h1 "log @ [(i, args)]"]
          by (simp add: logged_def split: prod.splits)
      qed
    qed
  qed
qed

lemma spec_cycles_run:
  "spec_cycles n fn args settle c = Some c' \<Longrightarrow>
   run_to_completion (n + m) fn args settle (after_call c)
     = run_to_completion m fn args settle (after_call c')"
proof (induction n arbitrary: c)
  case 0
  then show ?case by simp
next
  case (Suc n)
  obtain r w where c: "c = (r, w)" by (cases c)
  show ?case
  proof (cases r)
    case (Inl e)
    then show ?thesis using Suc.prems c by simp
  next
    case (Inr result)
    have unw: "getState w = State_Unwinding"
      using Suc.prems c Inr by (simp split: if_splits)
    let ?w1 = "asyncify_stop_unwind w"
    obtain v where v: "settle (value ?w1) = Fulfilled v"
      using Suc.prems c Inr unw by (cases "settle (value ?w1)") (simp_all add: Let_def)
    let ?next = "fn args (asyncify_start_rewind (data_addr ?w1) (?w1\<lparr>value := v\<rparr>))"
    have "spec_cycles n fn args settle ?next = Some c'"
      using Suc.prems c Inr unw v by (simp add: Let_def assertNoneState_def)
    from Suc.IH [OF this]
    have "run_to_completion (n + m) fn args settle (after_call ?next)
          = run_to_completion m fn args settle (after_call c')" .
    moreover have "value ?w1 = value w" by (simp add: asyncify_stop_unwind_def)
    moreover have "newExport_resume fn args (Fulfilled v) ?w1 = after_call ?next"
      by (rule newExport_resume_fulfilled) simp
    ultimately show ?thesis
      unfolding c Inr after_call_unwinding [OF unw] using v by simp
  qed
qed

subsection \<open>The wrapper cache\<close>

lemma wrapExportFn_cached:
  "wrapExportFn fn reg = (w, reg1) \<Longrightarrow> WRAPPED_EXPORTS reg1 fn = Some w"
  by (auto simp: wrapExportFn_def new_closure_def split: option.splits)

lemma wrapExportFn_hit:
  "WRAPPED_EXPORTS reg fn = Some w \<Longrightarrow> wrapExportFn fn reg = (w, reg)"
  by (simp add: wrapExportFn_def)

lemma wrapExportFn_keeps:
  "WRAPPED_EXPORTS reg key = Some cached \<Longrightarrow>
   WRAPPED_EXPORTS (snd (wrapExportFn fn reg)) key = Some cached"
  by (auto simp: wrapExportFn_def new_closure_def split: option.splits)

lemma wrapExportFn_ok:
  assumes "registry_ok reg"
  shows "registry_ok (snd (wrapExportFn fn reg))"
proof (cases "WRAPPED_EXPORTS reg fn")
  case (Some w)
  then show ?thesis using assms by (simp add: wrapExportFn_def)
next
  case None
  let ?n = "next_closure reg"
  have fresh: "closures reg ?n = None"
    using assms unfolding registry_ok_def by (meson domIff less_irrefl)
  have old: "\<And>g w. WRAPPED_EXPORTS reg g = Some w \<Longrightarrow>
               \<exists>c. w = Closure c \<and> c \<noteq> ?n \<and> closures reg c = Some (NewExport g)"
    using assms fresh unfolding registry_ok_def by (metis option.distinct(1))
  have bound: "\<And>c. c \<in> dom (closures reg) \<Longrightarrow> c < Suc ?n"
    using assms unfolding registry_ok_def by (simp add: less_Suc_eq)
  show ?thesis
    unfolding registry_ok_def using None old bound
    by (auto simp: wrapExportFn_def new_closure_def)
qed

lemma wrapExports_loop_wrap:
  "\<not> startsWith exportName ''asyncify_'' \<Longrightarrow>
   wrapExports_loop ((exportName, Func fn) # rest) reg =
     ((exportName, Func (fst (wrapExportFn fn reg)))
        # fst (wrapExports_loop rest (snd (wrapExportFn fn reg))),
      snd (wrapExports_loop rest (snd (wrapExportFn fn reg))))"
  by (simp add: case_prod_unfold)

lemma wrapExports_loop_pass:
  "startsWith exportName ''asyncify_'' \<or> (\<forall>fn. v \<noteq> Func fn) \<Longrightarrow>
   wrapExports_loop ((exportName, v) # rest) reg =
     ((exportName, v) # fst (wrapExports_loop rest reg), snd (wrapExports_loop rest reg))"
  by (cases v) (auto simp: case_prod_unfold)

lemma wrapExports_loop_keeps:
  "WRAPPED_EXPORTS reg key = Some cached \<Longrightarrow>
   WRAPPED_EXPORTS (snd (wrapExports_loop exports reg)) key = Some cached"
proof (induction exports arbitrary: reg)
  case Nil
  then show ?case by simp
next
  case (Cons x rest)
  obtain exportName v where x: "x = (exportName, v)" by (cases x)
  show ?case
  proof (cases "\<exists>fn. v = Func fn \<and> \<not> startsWith exportName ''asyncify_''")
    case True
    then obtain fn where v: "v = Func fn" and n: "\<not> startsWith exportName ''asyncify_''" by auto
    have "WRAPPED_EXPORTS (snd (wrapExports_loop rest (snd (wrapExportFn fn reg)))) key = Some cached"
      by (rule Cons.IH [OF wrapExportFn_keeps [OF Cons.prems]])
    then show ?thesis unfolding x v wrapExports_loop_wrap [OF n] by simp
  next
    case False
    then have p: "startsWith exportName ''asyncify_'' \<or> (\<forall>fn. v \<noteq> Func fn)" by auto
    show ?thesis unfolding x wrapExports_loop_pass [OF p] using Cons.IH [OF Cons.prems] by simp
  qed
qed

lemma wrapExports_loop_ok:
  "registry_ok reg \<Longrightarrow> registry_ok (snd (wrapExports_loop exports reg))"
proof (induction exports arbitrary: reg)
  case Nil
  then show ?case by simp
next
  case (Cons x rest)
  obtain exportName v where x: "x = (exportName, v)" by (cases x)
  show ?case
  proof (cases "\<exists>fn. v = Func fn \<and> \<not> startsWith exportName ''asyncify_''")
    case True
    then obtain fn where v: "v = Func fn" and n: "\<not> startsWith exportName ''asyncify_''" by auto
    have "registry_ok (snd (wrapExports_loop rest (snd (wrapExportFn fn reg))))"
      by (rule Cons.IH [OF wrapExportFn_ok [OF Cons.prems]])
    then show ?thesis unfolding x v wrapExports_loop_wrap [OF n] by simp
  next
    case False
    then have p: "startsWith exportName ''asyncify_'' \<or> (\<forall>fn. v \<noteq> Func fn)" by auto
    show ?thesis unfolding x wrapExports_loop_pass [OF p] using Cons.IH [OF Cons.prems] by simp
  qed
qed

lemma wrapExports_loop_wrapped:
  assumes "distinct (map fst exports)"
    and "map_of exports name = Some (Func fn)"
    and "\<not> startsWith name ''asyncify_''"
  shows "\<exists>p. map_of (fst (wrapExports_loop exports reg)) name = Some (Func p) \<and>
             WRAPPED_EXPORTS (snd (wrapExports_loop exports reg)) fn = Some p"
  using assms
proof (induction exports arbitrary: reg)
  case Nil
  then show ?case by simp
next
  case (Cons x rest)
  obtain exportName v where x: "x = (exportName, v)" by (cases x)
  show ?case
  proof (cases "name = exportName")
    case True
    then have v: "v = Func fn" using Cons.prems(2) x by simp
    have n: "\<not> startsWith exportName ''asyncify_''" using Cons.prems(3) True by simp
    obtain p reg' where w: "wrapExportFn fn reg = (p, reg')" by (cases "wrapExportFn fn reg")
    have "WRAPPED_EXPORTS (snd (wrapExports_loop rest reg')) fn = Some p"
      by (rule wrapExports_loop_keeps [OF wrapExportFn_cached [OF w]])
    then show ?thesis unfolding x v wrapExports_loop_wrap [OF n] using True w by simp
  next
    case False
    then have m: "map_of rest name = Some (Func fn)" using Cons.prems(2) x by simp
    have d: "distinct (map fst rest)" using Cons.prems(1) by simp
    show ?thesis
    proof (cases "\<exists>g. v = Func g \<and> \<not> startsWith exportName ''asyncify_''")
      case True
      then obtain g where v: "v = Func g" and n: "\<not> startsWith exportName ''asyncify_''" by auto
      from Cons.IH [OF d m Cons.prems(3), of "snd (wrapExportFn g reg)"]
      show ?thesis unfolding x v wrapExports_loop_wrap [OF n] using False by simp
    next
      case no: False
      then have p: "startsWith exportName ''asyncify_'' \<or> (\<forall>fn. v \<noteq> Func fn)" by auto
      from Cons.IH [OF d m Cons.prems(3), of reg]
      show ?thesis unfolding x wrapExports_loop_pass [OF p] using False by simp
    qed
  qed
qed

lemma wrapExports_loop_reserved:
  assumes "map_of exports name = Some v"
    and "startsWith name ''asyncify_'' \<or> (\<forall>fn. v \<noteq> Func fn)"
  shows "map_of (fst (wrapExports_loop exports reg)) name = Some v"
  using assms
proof (induction exports arbitrary: reg)
  case Nil
  then show ?case by simp
next
  case (Cons x rest)
  obtain exportName u where x: "x = (exportName, u)" by (cases x)
  show ?case
  proof (cases "name = exportName")
    case True
    then have u: "u = v" using Cons.prems(1) x by simp
    have p: "startsWith exportName ''asyncify_'' \<or> (\<forall>fn. u \<noteq> Func fn)"
      using Cons.prems(2) True u by simp
    show ?thesis unfolding x wrapExports_loop_pass [OF p] using True u by simp
  next
    case False
    then have m: "map_of rest name = Some v" using Cons.prems(1) x by simp
    show ?thesis
    proof (cases "\<exists>g. u = Func g \<and> \<not> startsWith exportName ''asyncify_''")
      case True
      then obtain g where u: "u = Func g" and n: "\<not> startsWith exportName ''asyncify_''" by auto
      from Cons.IH [OF m Cons.prems(2), of "snd (wrapExportFn g reg)"]
      show ?thesis unfolding x u wrapExports_loop_wrap [OF n] using False by simp
    next
      case no: False
      then have p: "startsWith exportName ''asyncify_'' \<or> (\<forall>fn. u \<noteq> Func fn)" by auto
      from Cons.IH [OF m Cons.prems(2), of reg]
      show ?thesis unfolding x wrapExports_loop_pass [OF p] using False by simp
    qed
  qed
qed

lemma do_wrap_keeps:
  assumes "WRAPPED_EXPORTS reg key = Some cached"
  shows "WRAPPED_EXPORTS (do_wrap op reg) key = Some cached"
proof (cases op)
  case (WrapExportFn fn)
  then show ?thesis using assms by (simp add: wrapExportFn_keeps)
next
  case (WrapImportFn fn)
  then show ?thesis using assms by (simp add: wrapImportFn_def new_closure_def)
next
  case (ReadImport obj m name)
  then show ?thesis using assms
    by (auto simp: wrapImports_get_def wrapModuleImports_get_def wrapImportFn_def
        new_closure_def split: option.splits extern.splits)
next
  case (WrapExports exports_id exports)
  from wrapExports_loop_keeps [OF assms, of exports] show ?thesis
    using WrapExports by (simp add: wrapExports_def case_prod_unfold)
qed

lemma fold_do_wrap_keeps:
  "WRAPPED_EXPORTS reg key = Some cached \<Longrightarrow>
   WRAPPED_EXPORTS (fold do_wrap ops reg) key = Some cached"
  by (induction ops arbitrary: reg) (simp_all add: do_wrap_keeps)

lemma registry_ok_empty: "registry_ok empty_registry"
  by (simp add: registry_ok_def empty_registry_def)

subsection \<open>Instantiation\<close>

lemma init_descriptor_seeded:
  assumes "init_descriptor env_memory w = Inr w1"
    and "descriptor (w\<lparr>data_addr := resolve_data_addr (instance_exports w)\<rparr>) = (0, 0)"
    and "map_of (instance_exports w) ''__stack_low'' = Some (Global low)"
    and "map_of (instance_exports w) ''__stack_pointer'' = Some (Global sp)"
  shows "descriptor w1 = (low, 0) \<and> update_stack_area w1 = Some (data_addr w1)"
  using assms
  by (auto simp: init_descriptor_def descriptor_def Let_def split: if_splits)

subsection \<open>Unfolding the example runs\<close>

lemmas world_defs = idle_world_def idle_instance_def plain_exports_def DATA_ADDR_def getState_def
  asyncify_get_state_def

lemmas run_defs = world_defs module_export_def wrapped_imports_def wrappedImport_def host_fn_def
  counting_imports_def call_twice_def call_once_def newExport_def newExport_loop_def
  newExport_resume_def assertNoneState_def asyncify_start_unwind_def asyncify_stop_unwind_def
  asyncify_start_rewind_def asyncify_stop_rewind_def isPromise_def delayed_def settle_answer_def
  unreplayed_export_def after_two_rounds_def left_rewinding_def Let_def

lemmas wrap_defs = wrapExportFn_def wrapImportFn_def wrapModuleImports_get_def
  wrapImports_get_def host_imports_object_def new_closure_def
  empty_registry_def wrapExports_def startsWith_def plain_exports_def stack_exports_def

lemma init_fresh_world:
  "init False 0 fresh_world empty_registry
   = Inr (seeded_world, fst (wrapExports 0 (stack_exports 500) empty_registry),
          snd (wrapExports 0 (stack_exports 500) empty_registry))"
  by (simp add: init_def init_descriptor_def fresh_world_def seeded_world_def idle_world_def idle_instance_def
      stack_exports_def plain_exports_def resolve_data_addr_def DATA_ADDR_def valid_view_def
      Let_def case_prod_unfold)

lemma wrapExports_plain:
  "fst (wrapExports 0 plain_exports empty_registry) =
     [(''memory'', Memory),
      (''asyncify_get_state'', Func (Raw 0)),
      (''asyncify_start_unwind'', Func (Raw 1)),
      (''asyncify_stop_unwind'', Func (Raw 2)),
      (''asyncify_start_rewind'', Func (Raw 3)),
      (''asyncify_stop_rewind'', Func (Raw 4)),
      (''run'', Func (Closure 0)),
      (''asyncify_extra'', Func (Raw 6))]"
  by (simp add: wrap_defs)

section \<open>The claims\<close>

text \<open>
  Claim C1, as amended. A wrapped export is called with \<open>args\<close> while the instance is
  idle. The wrapper calls the original export with \<open>args\<close>. As long as a call ends with
  the engine unwinding, the wrapper stops the unwind, waits for the pending value, asserts
  that the instance is idle, starts the rewind at \<open>data_addr\<close> and calls the original
  export again with the same arguments: these are the rounds of \<open>spec_cycles\<close>. When the
  call that ends the last of \<open>n\<close> rounds returns \<open>r\<close> with the instance idle, the
  scheduler needs \<open>n\<close> resumptions to settle the promise of the wrapper, and the promise
  is fulfilled with \<open>r\<close>, in the world that this call left. When that call returns with
  the engine rewinding, the last \<^verbatim>\<open>assertNoneState\<close> of the wrapper rejects the promise.
\<close>

theorem newExport_resolves_after_rounds:
  assumes "getState w = State_None"
    and "spec_cycles n fn args settle (fn args w) = Some (Inr r, wn)"
  shows "(getState wn = State_None \<longrightarrow>
            run_to_completion n fn args settle (newExport fn args w) = Some (Fulfilled r, wn)) \<and>
         (getState wn = State_Rewinding \<longrightarrow>
            run_to_completion n fn args settle (newExport fn args w)
              = Some (RejectedWith (InvalidAsyncState State_Rewinding), wn))"
proof -
  have "run_to_completion n fn args settle (newExport fn args w)
        = run_to_completion 0 fn args settle (after_call (Inr r, wn))"
    using spec_cycles_run [OF assms(2), of 0] newExport_idle [OF assms(1), of fn args] by simp
  then show ?thesis
    by (simp add: after_call_def newExport_loop_def assertNoneState_def)
qed

text \<open>
  The rounds at work: the export that calls the delayed import twice is resolved after two
  rounds, and the export that does not replay is rejected after one.
\<close>

theorem newExport_resolves_after_rounds_witness:
  "getState idle_world = State_None \<and>
   spec_cycles 2 (module_export (wrapped_imports counting_imports) call_twice) [] settle_answer
       (module_export (wrapped_imports counting_imports) call_twice [] idle_world)
     = Some (Inr (JObject [(''first'', JNum 7), (''second'', JNum 8)]), after_two_rounds) \<and>
   getState after_two_rounds = State_None \<and>
   run_to_completion 2 (module_export (wrapped_imports counting_imports) call_twice) [] settle_answer
       (newExport (module_export (wrapped_imports counting_imports) call_twice) [] idle_world)
     = Some (Fulfilled (JObject [(''first'', JNum 7), (''second'', JNum 8)]), after_two_rounds) \<and>
   spec_cycles 1 unreplayed_export [] settle_answer (unreplayed_export [] idle_world)
     = Some (Inr (JNum 5), left_rewinding) \<and>
   getState left_rewinding = State_Rewinding \<and>
   run_to_completion 1 unreplayed_export [] settle_answer (newExport unreplayed_export [] idle_world)
     = Some (RejectedWith (InvalidAsyncState State_Rewinding), left_rewinding)"
  using newExport_resolves_after_rounds [of idle_world 2 "module_export (wrapped_imports counting_imports) call_twice" "[]"
              settle_answer "JObject [(''first'', JNum 7), (''second'', JNum 8)]" after_two_rounds]
    newExport_resolves_after_rounds [of idle_world 1 unreplayed_export "[]" settle_answer "JNum 5" left_rewinding]
  by (simp add: run_defs numeral_2_eq_2)

text \<open>
  The claim as first stated resolves the promise whenever a call ends in a state other
  than unwinding. The replay of \<open>unreplayed_export\<close> returns 5 and leaves the engine
  rewinding, which is not unwinding, and the promise is not fulfilled with 5.
\<close>

theorem newExport_left_rewinding_counterexample:
  "getState idle_world = State_None \<and>
   spec_cycles 1 unreplayed_export [] settle_answer (unreplayed_export [] idle_world)
     = Some (Inr (JNum 5), left_rewinding) \<and>
   getState left_rewinding \<noteq> State_Unwinding \<and>
   run_to_completion 1 unreplayed_export [] settle_answer (newExport unreplayed_export [] idle_world)
     \<noteq> Some (Fulfilled (JNum 5), left_rewinding)"
  by (simp add: run_defs)

text \<open>
  Claim C2. A wrapped import that is called while the engine is rewinding stops the rewind
  and returns the pending value, whatever the original host function is: the function is
  not called, and the world changes by the stop of the rewind only. For a whole call of a
  wrapped export of an instrumented module: when the body, run with every import called
  once and every asynchronous result waited for on the spot, meets \<open>n\<close> asynchronous
  results and ends with outcome \<open>out\<close> and host state \<open>h\<close>, then the wrapper settles
  with the same outcome after \<open>n\<close> resumptions, the engine has been told to unwind \<open>n\<close>
  times, the host is in state \<open>h\<close>, and the log of the calls made to the host functions
  has grown by the calls of that run: each host function has been called once for each
  call in the body, one of them for each suspension, and never again in a replay.
\<close>

theorem replay_never_calls_host:
  fixes w :: "('s, 'h) world" and w0 :: "(prog option, 'g \<times> (nat \<times> jsval list) list) world"
  shows "(getState w = State_Rewinding \<longrightarrow>
            wrappedImport fn args w = (Inr (value w), asyncify_stop_rewind w)) \<and>
         (getState w0 = State_None \<longrightarrow>
          direct host_imports settle (body a) (fst (host w0)) = (out, h, n) \<longrightarrow>
            (\<exists>w1. run_to_completion n
                     (module_export (wrapped_imports (logged host_imports)) body) a settle
                     (newExport (module_export (wrapped_imports (logged host_imports)) body) a w0)
                   = Some (out, w1) \<and>
                  getState w1 = State_None \<and>
                  unwinds (engine_calls w1) = unwinds (engine_calls w0) + n \<and>
                  fst (host w1) = h \<and>
                  snd (host w1) =
                    snd (host w0) @ direct_calls host_imports settle (body a) (fst (host w0))))"
proof (intro conjI impI)
  assume "getState w = State_Rewinding"
  then show "wrappedImport fn args w = (Inr (value w), asyncify_stop_rewind w)"
    by (rule wrappedImport_rewinding)
next
  assume idle: "getState w0 = State_None"
    and d: "direct host_imports settle (body a) (fst (host w0)) = (out, h, n)"
  let ?calls = "direct_calls host_imports settle (body a) (fst (host w0))"
  have dl: "direct (logged host_imports) settle (body a) (host w0)
            = (out, (h, snd (host w0) @ ?calls), n)"
    using direct_logged [of host_imports settle "body a" "fst (host w0)" "snd (host w0)"] d
    by simp
  have "module_export (wrapped_imports (logged host_imports)) body a w0
        = run_prog (wrapped_imports (logged host_imports)) (body a) w0"
    using idle by (simp add: module_export_def getState_def asyncify_get_state_def)
  then show "\<exists>w1. run_to_completion n
                     (module_export (wrapped_imports (logged host_imports)) body) a settle
                     (newExport (module_export (wrapped_imports (logged host_imports)) body) a w0)
                   = Some (out, w1) \<and>
                  getState w1 = State_None \<and>
                  unwinds (engine_calls w1) = unwinds (engine_calls w0) + n \<and>
                  fst (host w1) = h \<and>
                  snd (host w1) = snd (host w0) @ ?calls"
    using run_prog_refines [OF idle dl, of body a] newExport_idle [OF idle] by auto
qed

text \<open>
  A replayed import call, and the export that calls the delayed import twice: two unwinds,
  and the host has counted and logged two calls.
\<close>

theorem replay_never_calls_host_witness:
  "getState (idle_world\<lparr>asyncify_state := State_Rewinding, value := JNum 7\<rparr>) = State_Rewinding \<and>
   wrappedImport (host_fn (counting_imports 1)) []
       (idle_world\<lparr>asyncify_state := State_Rewinding, value := JNum 7\<rparr>)
     = (Inr (JNum 7),
        asyncify_stop_rewind (idle_world\<lparr>asyncify_state := State_Rewinding, value := JNum 7\<rparr>)) \<and>
   host (asyncify_stop_rewind (idle_world\<lparr>asyncify_state := State_Rewinding, value := JNum 7\<rparr>))
     = host idle_world \<and>
   getState (idle_instance (0 :: nat, [] :: (nat \<times> jsval list) list)) = State_None \<and>
   direct counting_imports settle_answer (call_twice []) 0
     = (Fulfilled (JObject [(''first'', JNum 7), (''second'', JNum 8)]), 2, 2) \<and>
   direct_calls counting_imports settle_answer (call_twice []) 0 = [(1, []), (1, [])] \<and>
   (\<exists>w1. run_to_completion 2
            (module_export (wrapped_imports (logged counting_imports)) call_twice) []
            settle_answer
            (newExport (module_export (wrapped_imports (logged counting_imports)) call_twice) []
               (idle_instance (0, [])))
          = Some (Fulfilled (JObject [(''first'', JNum 7), (''second'', JNum 8)]), w1) \<and>
          getState w1 = State_None \<and>
          unwinds (engine_calls w1) = 2 \<and>
          host w1 = (2, [(1, []), (1, [])]))"
proof -
  note replay = replay_never_calls_host
     [where w = "idle_world\<lparr>asyncify_state := State_Rewinding, value := JNum 7\<rparr>"
      and fn = "host_fn (counting_imports 1)" and args = "[]"
      and ?w0.0 = "idle_instance (0 :: nat, [] :: (nat \<times> jsval list) list)"
      and host_imports = counting_imports and settle = settle_answer and body = call_twice
      and a = "[]" and out = "Fulfilled (JObject [(''first'', JNum 7), (''second'', JNum 8)])"
      and h = 2 and n = 2]
  have rewinding:
    "getState (idle_world\<lparr>asyncify_state := State_Rewinding, value := JNum 7\<rparr>) = State_Rewinding"
    by (simp add: getState_def asyncify_get_state_def)
  have idle: "getState (idle_instance (0 :: nat, [] :: (nat \<times> jsval list) list)) = State_None"
    by (simp add: world_defs)
  have once: "direct counting_imports settle_answer (call_twice []) 0
     = (Fulfilled (JObject [(''first'', JNum 7), (''second'', JNum 8)]), 2, 2)"
    by (simp add: counting_imports_def call_twice_def settle_answer_def isPromise_def delayed_def)
  have calls: "direct_calls counting_imports settle_answer (call_twice []) 0 = [(1, []), (1, [])]"
    by (simp add: counting_imports_def call_twice_def settle_answer_def isPromise_def delayed_def)
  have untouched:
    "host (asyncify_stop_rewind (idle_world\<lparr>asyncify_state := State_Rewinding, value := JNum 7\<rparr>))
     = host idle_world"
    by (simp add: asyncify_stop_rewind_def)
  have start: "host (idle_instance (0 :: nat, [] :: (nat \<times> jsval list) list)) = (0, [])"
    "unwinds (engine_calls (idle_instance (0 :: nat, [] :: (nat \<times> jsval list) list))) = 0"
    by (simp_all add: idle_instance_def)
  from replay idle once calls start
  obtain w1 where
    "run_to_completion 2
       (module_export (wrapped_imports (logged counting_imports)) call_twice) [] settle_answer
       (newExport (module_export (wrapped_imports (logged counting_imports)) call_twice) []
          (idle_instance (0, [])))
     = Some (Fulfilled (JObject [(''first'', JNum 7), (''second'', JNum 8)]), w1)"
    "getState w1 = State_None" "unwinds (engine_calls w1) = 2"
    "fst (host w1) = 2" "snd (host w1) = [(1, []), (1, [])]"
    by auto
  moreover from this have "host w1 = (2, [(1, []), (1, [])])"
    by (simp add: prod_eq_iff)
  ultimately have whole:
    "\<exists>w1. run_to_completion 2
            (module_export (wrapped_imports (logged counting_imports)) call_twice) []
            settle_answer
            (newExport (module_export (wrapped_imports (logged counting_imports)) call_twice) []
               (idle_instance (0, [])))
          = Some (Fulfilled (JObject [(''first'', JNum 7), (''second'', JNum 8)]), w1) \<and>
          getState w1 = State_None \<and>
          unwinds (engine_calls w1) = 2 \<and>
          host w1 = (2, [(1, []), (1, [])])"
    by blast
  from replay rewinding have single:
    "wrappedImport (host_fn (counting_imports 1)) []
       (idle_world\<lparr>asyncify_state := State_Rewinding, value := JNum 7\<rparr>)
     = (Inr (JNum 7),
        asyncify_stop_rewind (idle_world\<lparr>asyncify_state := State_Rewinding, value := JNum 7\<rparr>))"
    by simp
  show ?thesis
    using single whole rewinding idle once calls untouched by simp
qed

text \<open>
  Claim C3. A wrapped import is called while the instance is idle, and its host function
  returns a value that is not asynchronous. The wrapped call returns that value, and the
  world after it differs from the world before it by what the host function did to the
  host's own state: the instance is idle, the engine has received no control operation,
  and the pending value is the same.
\<close>

theorem plain_result_passes_through:
  assumes "getState w = State_None"
    and "f args (host w) = (Inr v, h)"
    and "\<not> isPromise v"
  shows "wrappedImport (host_fn f) args w = (Inr v, w\<lparr>host := h\<rparr>) \<and>
         getState (snd (wrappedImport (host_fn f) args w)) = State_None \<and>
         engine_calls (snd (wrappedImport (host_fn f) args w)) = engine_calls w \<and>
         value (snd (wrappedImport (host_fn f) args w)) = value w"
proof -
  have "host_fn f args w = (Inr v, w\<lparr>host := h\<rparr>)"
    using assms(2) by (simp add: host_fn_def)
  from wrappedImport_plain [where fn = "host_fn f", OF assms(1) this assms(3)] show ?thesis
    using assms(1) by simp
qed

text \<open>The import that answers 42 at once, called on the idle instance.\<close>

theorem plain_result_passes_through_witness:
  "getState idle_world = State_None \<and>
   counting_imports 0 [] (host idle_world) = (Inr (JNum 42), 1) \<and>
   \<not> isPromise (JNum 42) \<and>
   wrappedImport (host_fn (counting_imports 0)) [] idle_world = (Inr (JNum 42), idle_world\<lparr>host := 1\<rparr>) \<and>
   getState (snd (wrappedImport (host_fn (counting_imports 0)) [] idle_world)) = State_None \<and>
   engine_calls (snd (wrappedImport (host_fn (counting_imports 0)) [] idle_world)) = [] \<and>
   value (snd (wrappedImport (host_fn (counting_imports 0)) [] idle_world)) = JUndefined"
  using plain_result_passes_through [of idle_world "counting_imports 0" "[]" "JNum 42" 1]
  by (simp add: world_defs counting_imports_def isPromise_def)

text \<open>
  Claim C4. A wrapped import is called while the instance is idle, and its host function
  returns an asynchronous value. The wrapper runs the stack-update hook if one is
  registered (the hook stores the live stack pointer in the second word of the
  descriptor), tells the engine to start unwinding at \<open>data_addr\<close>, stores the
  asynchronous result as the pending value, and returns \<^verbatim>\<open>undefined\<close>.
\<close>

theorem asynchronous_result_starts_unwind:
  assumes "getState w = State_None"
    and "f args (host w) = (Inr v, h)"
    and "isPromise v"
  shows "wrappedImport (host_fn f) args w =
           (Inr JUndefined,
            w\<lparr>host := h,
              memory := (case update_stack_area w of
                           Some view \<Rightarrow>
                             (memory w)(view + 4 :=
                                to_int32 (map_of (instance_exports w) ''__stack_pointer''))
                         | None \<Rightarrow> memory w),
              asyncify_state := State_Unwinding,
              engine_calls := engine_calls w @ [StartUnwind (data_addr w)],
              value := v\<rparr>)"
proof -
  have "host_fn f args w = (Inr v, w\<lparr>host := h\<rparr>)"
    using assms(2) by (simp add: host_fn_def)
  from wrappedImport_async [where fn = "host_fn f", OF assms(1) this assms(3)] show ?thesis
    by (cases "update_stack_area w") (simp_all add: unwound_def)
qed

text \<open>The delayed import, called on the idle instance, which has no hook.\<close>

theorem asynchronous_result_starts_unwind_witness:
  "getState idle_world = State_None \<and>
   counting_imports 1 [] (host idle_world) = (Inr (delayed 7), 1) \<and>
   isPromise (delayed 7) \<and>
   wrappedImport (host_fn (counting_imports 1)) [] idle_world =
     (Inr JUndefined,
      idle_world\<lparr>host := 1, asyncify_state := State_Unwinding,
                 engine_calls := [StartUnwind 16], value := delayed 7\<rparr>)"
  using asynchronous_result_starts_unwind [of idle_world "counting_imports 1" "[]" "delayed 7" 1]
  by (simp add: world_defs counting_imports_def isPromise_def delayed_def)

text \<open>
  Claim C5. A wrapped import that is called while the engine is unwinding throws the
  error of \<^verbatim>\<open>assertNoneState\<close>. The result does not depend on the original host
  function and the world is unchanged: the function is not called, and the state and the
  pending value stay as they are.
\<close>

theorem import_while_unwinding_fails:
  assumes "getState w = State_Unwinding"
  shows "wrappedImport fn args w = (Inl (InvalidAsyncState State_Unwinding), w)"
  using assms by (rule wrappedImport_unwinding)

text \<open>An import called on an instance that is unwinding.\<close>

theorem import_while_unwinding_fails_witness:
  "getState (idle_world\<lparr>asyncify_state := State_Unwinding\<rparr>) = State_Unwinding \<and>
   wrappedImport (host_fn (counting_imports 0)) [] (idle_world\<lparr>asyncify_state := State_Unwinding\<rparr>)
     = (Inl (InvalidAsyncState State_Unwinding), idle_world\<lparr>asyncify_state := State_Unwinding\<rparr>)"
  using import_while_unwinding_fails [of "idle_world\<lparr>asyncify_state := State_Unwinding\<rparr>" "host_fn (counting_imports 0)" "[]"]
  by (simp add: getState_def asyncify_get_state_def)

text \<open>
  Claim C6. A wrapped export that is called while the instance is not idle fails with the
  error of \<^verbatim>\<open>assertNoneState\<close>: the promise it returns is rejected with it. The result
  does not depend on the original export and the world is unchanged: the original export
  is not called.
\<close>

theorem export_while_busy_fails:
  assumes "getState w \<noteq> State_None"
  shows "newExport fn args w = (Rejected (InvalidAsyncState (getState w)), w)"
  using assms by (simp add: newExport_def assertNoneState_def)

text \<open>An export called on an instance that is unwinding.\<close>

theorem export_while_busy_fails_witness:
  "getState (idle_world\<lparr>asyncify_state := State_Unwinding\<rparr>) \<noteq> State_None \<and>
   newExport (module_export (wrapped_imports counting_imports) call_twice) []
       (idle_world\<lparr>asyncify_state := State_Unwinding\<rparr>)
     = (Rejected (InvalidAsyncState State_Unwinding), idle_world\<lparr>asyncify_state := State_Unwinding\<rparr>)"
  using export_while_busy_fails [of "idle_world\<lparr>asyncify_state := State_Unwinding\<rparr>"
      "module_export (wrapped_imports counting_imports) call_twice" "[]"]
  by (simp add: getState_def asyncify_get_state_def)

text \<open>
  Claim C7, as amended. Wrapping an export function again gives the wrapper of the first
  time and changes nothing, also after any sequence of other wrap operations: an export
  function never gets a second wrapper. An import function has no such cache: every read
  of a function through the proxy of the import object creates a new wrapper, so two
  reads of the same function give two different wrappers.
\<close>

theorem export_wrapper_is_cached:
  "(wrapExportFn fn reg = (w, reg1) \<longrightarrow>
      wrapExportFn fn reg1 = (w, reg1) \<and>
      wrapExportFn fn (fold do_wrap ops reg1) = (w, fold do_wrap ops reg1)) \<and>
   (map_of imports module_name = Some module \<and> map_of module name = Some (Func f) \<longrightarrow>
      (\<exists>w1 w2. fst (wrapImports_get imports module_name name reg') = Some (Func w1) \<and>
               fst (wrapImports_get imports module_name name
                      (snd (wrapImports_get imports module_name name reg'))) = Some (Func w2) \<and>
               w1 \<noteq> w2))"
proof (intro conjI impI)
  assume "wrapExportFn fn reg = (w, reg1)"
  then have hit: "WRAPPED_EXPORTS reg1 fn = Some w" by (rule wrapExportFn_cached)
  show "wrapExportFn fn reg1 = (w, reg1)"
    by (rule wrapExportFn_hit [OF hit])
  show "wrapExportFn fn (fold do_wrap ops reg1) = (w, fold do_wrap ops reg1)"
    by (rule wrapExportFn_hit [OF fold_do_wrap_keeps [OF hit]])
next
  assume "map_of imports module_name = Some module \<and> map_of module name = Some (Func f)"
  then show "\<exists>w1 w2. fst (wrapImports_get imports module_name name reg') = Some (Func w1) \<and>
               fst (wrapImports_get imports module_name name
                      (snd (wrapImports_get imports module_name name reg'))) = Some (Func w2) \<and>
               w1 \<noteq> w2"
    by (simp add: wrapImports_get_def wrapModuleImports_get_def wrapImportFn_def new_closure_def)
qed

text \<open>An export wrapped before and after other wrap operations, and an import read twice.\<close>

theorem export_wrapper_is_cached_witness:
  "wrapExportFn (Raw 5) empty_registry = (Closure 0, snd (wrapExportFn (Raw 5) empty_registry)) \<and>
   wrapExportFn (Raw 5) (snd (wrapExportFn (Raw 5) empty_registry))
     = (Closure 0, snd (wrapExportFn (Raw 5) empty_registry)) \<and>
   fst (wrapExportFn (Raw 5)
          (fold do_wrap [WrapImportFn (Raw 9), WrapExportFn (Raw 6), WrapExports 0 plain_exports,
                         ReadImport host_imports_object ''env'' ''now'']
             (snd (wrapExportFn (Raw 5) empty_registry)))) = Closure 0 \<and>
   map_of host_imports_object ''env'' = Some [(''now'', Func (Raw 9))] \<and>
   map_of [(''now'', Func (Raw 9))] ''now'' = Some (Func (Raw 9)) \<and>
   fst (wrapImports_get host_imports_object ''env'' ''now'' empty_registry)
     = Some (Func (Closure 0)) \<and>
   fst (wrapImports_get host_imports_object ''env'' ''now''
          (snd (wrapImports_get host_imports_object ''env'' ''now'' empty_registry)))
     = Some (Func (Closure 1))"
  using export_wrapper_is_cached [of "Raw 5" empty_registry "Closure 0"
      "snd (wrapExportFn (Raw 5) empty_registry)"
      "[WrapImportFn (Raw 9), WrapExportFn (Raw 6), WrapExports 0 plain_exports,
        ReadImport host_imports_object ''env'' ''now'']"
      host_imports_object "''env''" "[(''now'', Func (Raw 9))]" "''now''" "Raw 9" empty_registry]
  by (simp add: wrapExportFn_def wrapImportFn_def wrapModuleImports_get_def wrapImports_get_def
      host_imports_object_def new_closure_def empty_registry_def)

text \<open>
  The claim as first stated covers import functions as well. Wrapping the same import
  function twice gives two different function objects, by \<open>wrapImportFn\<close> itself and
  by two reads through the proxy.
\<close>

theorem import_wrapped_twice_counterexample:
  "fst (wrapImportFn (Raw 9) empty_registry) = Closure 0 \<and>
   fst (wrapImportFn (Raw 9) (snd (wrapImportFn (Raw 9) empty_registry))) = Closure 1 \<and>
   fst (wrapImportFn (Raw 9) empty_registry)
     \<noteq> fst (wrapImportFn (Raw 9) (snd (wrapImportFn (Raw 9) empty_registry))) \<and>
   fst (wrapImports_get host_imports_object ''env'' ''now'' empty_registry)
     \<noteq> fst (wrapImports_get host_imports_object ''env'' ''now''
              (snd (wrapImports_get host_imports_object ''env'' ''now'' empty_registry)))"
  by (simp add: wrap_defs)

text \<open>
  Claim C8, as amended. The module exports the low stack mark with value \<open>low\<close> and the
  stack pointer, and the two words of the descriptor are zero. After \<open>init\<close> the first
  word is \<open>low\<close> and the second word is still zero: \<open>init\<close> registers the hook and
  leaves the second word to it. When later a wrapped import returns an asynchronous value
  while the instance is idle and the live stack pointer is \<open>sp2\<close>, the engine is unwinding
  and the second word is \<open>sp2\<close>.
\<close>

theorem descriptor_start_seeded_end_by_hook:
  assumes "init env_memory exports_id w reg = Inr (w1, newExports, reg1)"
    and "descriptor (w\<lparr>data_addr := resolve_data_addr (instance_exports w)\<rparr>) = (0, 0)"
    and "map_of (instance_exports w) ''__stack_low'' = Some (Global low)"
    and "map_of (instance_exports w) ''__stack_pointer'' = Some (Global sp)"
    and "update_stack_area w2 = update_stack_area w1"
    and "data_addr w2 = data_addr w1"
    and "getState w2 = State_None"
    and "map_of (instance_exports w2) ''__stack_pointer'' = Some (Global sp2)"
    and "f args (host w2) = (Inr v, h)"
    and "isPromise v"
  shows "descriptor w1 = (low, 0) \<and>
         snd (descriptor (snd (wrappedImport (host_fn f) args w2))) = sp2 \<and>
         getState (snd (wrappedImport (host_fn f) args w2)) = State_Unwinding"
proof -
  have "init_descriptor env_memory w = Inr w1"
    using assms(1) by (auto simp: init_def split: sum.splits prod.splits)
  from init_descriptor_seeded [OF this assms(2-4)]
  have seeded: "descriptor w1 = (low, 0)" and hook: "update_stack_area w1 = Some (data_addr w1)"
    by simp_all
  have "host_fn f args w2 = (Inr v, w2\<lparr>host := h\<rparr>)"
    using assms(9) by (simp add: host_fn_def)
  from wrappedImport_async [where fn = "host_fn f", OF assms(7) this assms(10)]
  have "wrappedImport (host_fn f) args w2 = (Inr JUndefined, unwound v (w2\<lparr>host := h\<rparr>))" .
  then show ?thesis
    using seeded hook assms(5,6,8)
    by (simp add: unwound_def descriptor_def getState_def asyncify_get_state_def)
qed

text \<open>
  With the values 100 and 500 at instantiation and a stack pointer of 540 at the unwind.
\<close>

theorem descriptor_start_seeded_end_by_hook_witness:
  "init False 0 fresh_world empty_registry
     = Inr (seeded_world, fst (wrapExports 0 (stack_exports 500) empty_registry),
            snd (wrapExports 0 (stack_exports 500) empty_registry)) \<and>
   descriptor (fresh_world\<lparr>data_addr := resolve_data_addr (instance_exports fresh_world)\<rparr>) = (0, 0) \<and>
   map_of (instance_exports fresh_world) ''__stack_low'' = Some (Global 100) \<and>
   map_of (instance_exports fresh_world) ''__stack_pointer'' = Some (Global 500) \<and>
   getState (seeded_world\<lparr>instance_exports := stack_exports 540\<rparr>) = State_None \<and>
   map_of (instance_exports (seeded_world\<lparr>instance_exports := stack_exports 540\<rparr>)) ''__stack_pointer''
     = Some (Global 540) \<and>
   counting_imports 1 [] (host (seeded_world\<lparr>instance_exports := stack_exports 540\<rparr>))
     = (Inr (delayed 7), 1) \<and>
   isPromise (delayed 7) \<and>
   descriptor seeded_world = (100, 0) \<and>
   snd (descriptor (snd (wrappedImport (host_fn (counting_imports 1)) []
                           (seeded_world\<lparr>instance_exports := stack_exports 540\<rparr>)))) = 540 \<and>
   getState (snd (wrappedImport (host_fn (counting_imports 1)) []
                    (seeded_world\<lparr>instance_exports := stack_exports 540\<rparr>))) = State_Unwinding"
proof -
  note seeding = descriptor_start_seeded_end_by_hook [where env_memory = False and exports_id = 0 and w = fresh_world
      and reg = empty_registry and ?w1.0 = seeded_world
      and newExports = "fst (wrapExports 0 (stack_exports 500) empty_registry)"
      and ?reg1.0 = "snd (wrapExports 0 (stack_exports 500) empty_registry)"
      and low = 100 and sp = 500
      and ?w2.0 = "seeded_world\<lparr>instance_exports := stack_exports 540\<rparr>"
      and ?sp2.0 = 540 and f = "counting_imports 1" and args = "[]" and v = "delayed 7" and h = 1]
  have zeroed:
    "descriptor (fresh_world\<lparr>data_addr := resolve_data_addr (instance_exports fresh_world)\<rparr>) = (0, 0)"
    by (simp add: descriptor_def fresh_world_def idle_world_def idle_instance_def)
  have low: "map_of (instance_exports fresh_world) ''__stack_low'' = Some (Global 100)"
    and sp: "map_of (instance_exports fresh_world) ''__stack_pointer'' = Some (Global 500)"
    by (simp_all add: fresh_world_def stack_exports_def plain_exports_def)
  have idle: "getState (seeded_world\<lparr>instance_exports := stack_exports 540\<rparr>) = State_None"
    by (simp add: seeded_world_def fresh_world_def world_defs)
  have sp2: "map_of (instance_exports (seeded_world\<lparr>instance_exports := stack_exports 540\<rparr>))
               ''__stack_pointer'' = Some (Global 540)"
    by (simp add: stack_exports_def plain_exports_def)
  have answer: "counting_imports 1 [] (host (seeded_world\<lparr>instance_exports := stack_exports 540\<rparr>))
     = (Inr (delayed 7), 1)"
    by (simp add: counting_imports_def seeded_world_def fresh_world_def idle_world_def idle_instance_def)
  have async: "isPromise (delayed 7)"
    by (simp add: isPromise_def delayed_def)
  show ?thesis
    using seeding [OF init_fresh_world zeroed low sp _ _ idle sp2 answer async]
      init_fresh_world zeroed low sp idle sp2 answer async
    by simp
qed

text \<open>
  The claim as first stated has the second word equal to 500 right after instantiation.
  On a zeroed descriptor, with the two symbols exported with the values 100 and 500, the
  descriptor after \<open>init\<close> is (100, 0).
\<close>

theorem descriptor_end_not_seeded_counterexample:
  "descriptor (fresh_world\<lparr>data_addr := 16\<rparr>) = (0, 0) \<and>
   map_of (instance_exports fresh_world) ''__stack_low'' = Some (Global 100) \<and>
   map_of (instance_exports fresh_world) ''__stack_pointer'' = Some (Global 500) \<and>
   map_option descriptor (initialised (init False 0 fresh_world empty_registry)) = Some (100, 0) \<and>
   map_option descriptor (initialised (init False 0 fresh_world empty_registry)) \<noteq> Some (100, 500)"
  by (simp add: init_def init_descriptor_def fresh_world_def idle_world_def idle_instance_def
      stack_exports_def plain_exports_def resolve_data_addr_def DATA_ADDR_def valid_view_def
      descriptor_def initialised_def Let_def case_prod_unfold)

text \<open>
  Claim C9, as amended. Every function that the instance exports under a name that does
  not start with \<^verbatim>\<open>asyncify_\<close> is published as an asynchronous function: the wrapped
  export object, stored under the identity of the raw one, holds under the same name a
  function whose call returns a promise in every world and for all arguments, whether the
  original export suspends or not. The promise is that of the export wrapper around the
  original function. Every export under a name that starts with \<^verbatim>\<open>asyncify_\<close>, which
  the state query and the four control operations do, is published as it is.
\<close>

theorem exports_outside_prefix_are_async:
  assumes "registry_ok reg"
    and "distinct (map fst exports)"
    and "wrapExports exports_id exports reg = (newExports, reg1)"
  shows "WRAPPED_EXPORT_OBJECTS reg1 exports_id = Some newExports \<and>
         (map_of exports name = Some (Func fn) \<and> \<not> startsWith name ''asyncify_'' \<longrightarrow>
            (\<exists>p. map_of newExports name = Some (Func p) \<and>
                 (\<forall>args w. call behaviour reg1 p args w =
                    (case newExport (behaviour fn) args w of (r, w1) \<Rightarrow> (Promise r, w1))))) \<and>
         (map_of exports reserved = Some v \<and> startsWith reserved ''asyncify_'' \<longrightarrow>
            map_of newExports reserved = Some v)"
proof -
  let ?loop = "wrapExports_loop exports reg"
  have ne: "newExports = fst ?loop"
    and reg1: "reg1 = (snd ?loop)\<lparr>WRAPPED_EXPORT_OBJECTS :=
                 (WRAPPED_EXPORT_OBJECTS (snd ?loop))(exports_id \<mapsto> fst ?loop)\<rparr>"
    using assms(3) by (auto simp: wrapExports_def case_prod_unfold)
  have stored: "WRAPPED_EXPORT_OBJECTS reg1 exports_id = Some newExports"
    using ne reg1 by simp
  have wrapped: "\<exists>p. map_of newExports name = Some (Func p) \<and>
                 (\<forall>args w. call behaviour reg1 p args w =
                    (case newExport (behaviour fn) args w of (r, w1) \<Rightarrow> (Promise r, w1)))"
    if found: "map_of exports name = Some (Func fn)" and free: "\<not> startsWith name ''asyncify_''"
  proof -
    from wrapExports_loop_wrapped [OF assms(2) found free, of reg] obtain p where
      p: "map_of (fst ?loop) name = Some (Func p)" "WRAPPED_EXPORTS (snd ?loop) fn = Some p"
      by blast
    have "registry_ok (snd ?loop)" by (rule wrapExports_loop_ok [OF assms(1)])
    with p(2) obtain c where c: "p = Closure c" "closures (snd ?loop) c = Some (NewExport fn)"
      unfolding registry_ok_def by blast
    have "\<forall>args w. call behaviour reg1 p args w =
            (case newExport (behaviour fn) args w of (r, w1) \<Rightarrow> (Promise r, w1))"
      using c reg1 by (simp add: call_def)
    then show ?thesis using p(1) ne by auto
  qed
  have passed: "map_of newExports reserved = Some v"
    if "map_of exports reserved = Some v" and "startsWith reserved ''asyncify_''"
    using wrapExports_loop_reserved [of exports reserved v reg] that ne by simp
  show ?thesis using stored wrapped passed by blast
qed

text \<open>
  The export \<^verbatim>\<open>run\<close> of the example module, whose original function returns at once:
  the published function returns a promise, already resolved.
\<close>

theorem exports_outside_prefix_are_async_witness:
  "registry_ok empty_registry \<and>
   distinct (map fst plain_exports) \<and>
   map_of plain_exports ''run'' = Some (Func (Raw 5)) \<and>
   \<not> startsWith ''run'' ''asyncify_'' \<and>
   WRAPPED_EXPORT_OBJECTS (snd (wrapExports 0 plain_exports empty_registry)) 0
     = Some (fst (wrapExports 0 plain_exports empty_registry)) \<and>
   map_of (fst (wrapExports 0 plain_exports empty_registry)) ''run'' = Some (Func (Closure 0)) \<and>
   call (\<lambda>f. host_fn (counting_imports 0)) (snd (wrapExports 0 plain_exports empty_registry))
       (Closure 0) [] idle_world
     = (Promise (Resolved (JNum 42)), idle_world\<lparr>host := 1\<rparr>) \<and>
   map_of plain_exports ''asyncify_get_state'' = Some (Func (Raw 0)) \<and>
   startsWith ''asyncify_get_state'' ''asyncify_'' \<and>
   map_of (fst (wrapExports 0 plain_exports empty_registry)) ''asyncify_get_state''
     = Some (Func (Raw 0))"
proof -
  have ok: "registry_ok empty_registry" by (rule registry_ok_empty)
  have names: "distinct (map fst plain_exports)" by (simp add: plain_exports_def)
  have run: "map_of plain_exports ''run'' = Some (Func (Raw 5))" by (simp add: plain_exports_def)
  have free: "\<not> startsWith ''run'' ''asyncify_''" by (simp add: startsWith_def)
  have query: "map_of plain_exports ''asyncify_get_state'' = Some (Func (Raw 0))"
    by (simp add: plain_exports_def)
  have reserved: "startsWith ''asyncify_get_state'' ''asyncify_''" by (simp add: startsWith_def)
  have published: "map_of (fst (wrapExports 0 plain_exports empty_registry)) ''run''
                   = Some (Func (Closure 0))"
    by (simp add: wrapExports_plain)
  have wrapped: "wrapExports 0 plain_exports empty_registry
                 = (fst (wrapExports 0 plain_exports empty_registry),
                    snd (wrapExports 0 plain_exports empty_registry))"
    by simp
  note surface = exports_outside_prefix_are_async
      [where behaviour = "\<lambda>f. host_fn (counting_imports 0) :: (prog option, nat) jsfun"
         and name = "''run''" and fn = "Raw 5"
         and reserved = "''asyncify_get_state''" and v = "Func (Raw 0)",
       OF ok names wrapped]
  from surface run free obtain p where
    p: "map_of (fst (wrapExports 0 plain_exports empty_registry)) ''run'' = Some (Func p)"
    and async: "\<And>args w. call (\<lambda>f. host_fn (counting_imports 0) :: (prog option, nat) jsfun)
                       (snd (wrapExports 0 plain_exports empty_registry)) p args w
            = (case newExport (host_fn (counting_imports 0)) args w of
                 (r, w1) \<Rightarrow> (Promise r, w1))"
    by blast
  from surface have object:
    "WRAPPED_EXPORT_OBJECTS (snd (wrapExports 0 plain_exports empty_registry)) 0
       = Some (fst (wrapExports 0 plain_exports empty_registry))"
    by blast
  from surface query reserved have kept:
    "map_of (fst (wrapExports 0 plain_exports empty_registry)) ''asyncify_get_state''
       = Some (Func (Raw 0))"
    by blast
  from p published have "p = Closure 0" by simp
  with async [of "[]" idle_world]
  have "call (\<lambda>f. host_fn (counting_imports 0))
           (snd (wrapExports 0 plain_exports empty_registry)) (Closure 0) [] idle_world
         = (case newExport (host_fn (counting_imports 0)) [] idle_world of
              (r, w1) \<Rightarrow> (Promise r, w1))"
    by simp
  moreover have "newExport (host_fn (counting_imports 0)) [] (idle_world :: (prog option, nat) world)
                 = (Resolved (JNum 42), idle_world\<lparr>host := 1\<rparr>)"
    by (simp add: newExport_def newExport_loop_def assertNoneState_def host_fn_def
        counting_imports_def world_defs)
  ultimately show ?thesis
    using ok names run free published object query reserved kept by simp
qed

text \<open>
  The claim as first stated excepts the state query and the four control operations only.
  The source excepts every name that starts with \<^verbatim>\<open>asyncify_\<close>: the function exported
  as \<^verbatim>\<open>asyncify_extra\<close> is none of the five, it is published unwrapped, and its call
  returns a plain value.
\<close>

theorem prefixed_export_not_wrapped_counterexample:
  "map_of plain_exports ''asyncify_extra'' = Some (Func (Raw 6)) \<and>
   ''asyncify_extra'' \<notin> set [''asyncify_get_state'', ''asyncify_start_unwind'',
      ''asyncify_stop_unwind'', ''asyncify_start_rewind'', ''asyncify_stop_rewind''] \<and>
   map_of (fst (wrapExports 0 plain_exports empty_registry)) ''asyncify_extra''
     = Some (Func (Raw 6)) \<and>
   call (\<lambda>f. host_fn (counting_imports 0)) (snd (wrapExports 0 plain_exports empty_registry))
       (Raw 6) [] idle_world
     = (Sync (Inr (JNum 42)), idle_world\<lparr>host := 1\<rparr>)"
  by (simp add: wrap_defs call_def host_fn_def counting_imports_def idle_world_def idle_instance_def)

text \<open>
  Claim C10. A wrapped import, called while the instance is idle, takes the result of its
  original function for asynchronous exactly when the result is a thenable, that is a
  non-null object or a function whose \<^verbatim>\<open>then\<close> property is a function. Every thenable
  takes the unwind path, and every other value is returned unchanged, in the world that
  the original function left.
\<close>

theorem asynchronous_iff_thenable:
  assumes "getState w = State_None"
    and "fn args w = (Inr v, w1)"
  shows "(isPromise v \<longleftrightarrow> thenable v) \<and>
         (thenable v \<longrightarrow>
            wrappedImport fn args w = (Inr JUndefined, unwound v w1)) \<and>
         (\<not> thenable v \<longrightarrow> wrappedImport fn args w = (Inr v, w1))"
  using wrappedImport_async [where fn = fn, OF assms] wrappedImport_plain [where fn = fn, OF assms]
  by (simp add: isPromise_iff_thenable)

text \<open>
  A thenable that is no promise made by the engine, then \<^verbatim>\<open>null\<close> and an object whose
  \<^verbatim>\<open>then\<close> is a number.
\<close>

theorem asynchronous_iff_thenable_witness:
  "getState idle_world = State_None \<and>
   host_fn (counting_imports 1) [] idle_world = (Inr (delayed 7), idle_world\<lparr>host := 1\<rparr>) \<and>
   thenable (delayed 7) \<and>
   wrappedImport (host_fn (counting_imports 1)) [] idle_world
     = (Inr JUndefined, unwound (delayed 7) (idle_world\<lparr>host := 1\<rparr>)) \<and>
   host_fn (\<lambda>args h. (Inr JNull, h)) [] idle_world = (Inr JNull, idle_world) \<and>
   \<not> thenable JNull \<and>
   wrappedImport (host_fn (\<lambda>args h. (Inr JNull, h))) [] idle_world = (Inr JNull, idle_world) \<and>
   host_fn (\<lambda>args h. (Inr (JObject [(''then'', JNum 1)]), h)) [] idle_world
     = (Inr (JObject [(''then'', JNum 1)]), idle_world) \<and>
   \<not> thenable (JObject [(''then'', JNum 1)]) \<and>
   wrappedImport (host_fn (\<lambda>args h. (Inr (JObject [(''then'', JNum 1)]), h))) [] idle_world
     = (Inr (JObject [(''then'', JNum 1)]), idle_world)"
  using asynchronous_iff_thenable [of idle_world "host_fn (counting_imports 1)" "[]" "delayed 7" "idle_world\<lparr>host := 1\<rparr>"]
    asynchronous_iff_thenable [of idle_world "host_fn (\<lambda>args h. (Inr JNull, h))" "[]" JNull idle_world]
    asynchronous_iff_thenable [of idle_world "host_fn (\<lambda>args h. (Inr (JObject [(''then'', JNum 1)]), h))" "[]"
           "JObject [(''then'', JNum 1)]" idle_world]
  by (simp add: world_defs counting_imports_def host_fn_def thenable_def delayed_def is_callable_def)

end
